theory Spec2Isabelle
  imports Main "HOL-Library.Sublist"
begin

section \<open>The meta-transaction forwarder (ts/forwarders/forwarder.ts)\<close>

text \<open>
  The abstract class \<open>Forwarder\<close> signs a call (or a batch of calls) for a relayer: it
  lowers deploy calls, encodes the call data, asks its replay-protection authority for a
  token, signs the hash of the encoded parameters and wraps everything into the final
  transaction. The class calls six abstract methods, the ethers library, a signer and a
  replay-protection authority; none of them is defined in forwarder.ts, so each is a field
  of the record \<open>Forwarder\<close> below and every result holds for all of them. Each may
  throw (a rejected promise is a throw at the \<open>await\<close>), so each returns a sum with the
  error on the left; the error type is a parameter, since forwarder.ts never inspects one.
  The abstract methods, the library functions and the signer are functions of their
  arguments; only the authority carries state from one call to the next.

  Hexadecimal strings are \<open>string\<close>; byte arrays (\<open>Uint8Array\<close>) are lists of naturals.
\<close>

subsection \<open>Data\<close>

text \<open>
  \<open>BigNumberish\<close> of ethers: a string, a number, a \<open>BigNumber\<close> object or an array of
  bytes. The constructors are kept apart because \<open>value || "0x"\<close> tests the truthiness
  of the JavaScript value: the empty string and the number zero are falsy, every object is
  truthy. Numbers are integers here (NaN is not modelled).
\<close>

datatype BigNumberish =
    BnString string
  | BnNumber int
  | BnBigNumber int
  | BnArray "nat list"

text \<open>\<open>interface MinimalTx { to: string; data: string }\<close>\<close>

record MinimalTx =
  to :: string
  data :: string

text \<open>
  \<open>DirectCallData | DeployCallData\<close> as one record of optional fields, as the object is
  at run time: a field that is absent (\<open>undefined\<close>) is \<open>None\<close>. The fields a subclass
  adds through the type parameters \<open>TCallData\<close>, \<open>TBatchCallData\<close> are in \<open>cd_extra\<close>.
\<close>

record 'x CallData =
  cd_to :: "string option"
  cd_data :: "string option"
  cd_value :: "BigNumberish option"
  cd_salt :: "string option"
  cd_extra :: 'x

text \<open>
  The argument of \<open>signMetaTransaction\<close>: one descriptor or an array of descriptors
  (\<open>Array.isArray(tx)\<close> tells them apart).
\<close>

datatype 'x MetaTxInput =
    Single "'x CallData"
  | Batch "'x CallData list"

text \<open>An argument of \<open>defaultAbiCoder.encode\<close>: a string or a number.\<close>

datatype AbiValue =
    AbiString string
  | AbiNumber int

text \<open>
  The calls that leave forwarder.ts, in the order they are made. The trace is
  bookkeeping of the model: it is what makes "the authority is asked once" and
  "the signer is not invoked" statements about a run.
\<close>

datatype 'x Call =
    ToCallData "string option" string BigNumberish
  | ToBatchCallData "string option" string BigNumberish
  | EncodeCallData "'x CallData"
  | EncodeBatchCallData "'x CallData list"
  | GetEncodedReplayProtection
  | SignMessage "nat list"
  | EncodeTx "'x CallData" string string string
  | EncodeBatchTx "'x CallData list" string string string

text \<open>
  The mutable state a run can touch: the state of the replay-protection authority
  (its counters or cursor) and the trace of calls.
\<close>

record ('a, 'x) World =
  authority :: 'a
  trace :: "'x Call list"

text \<open>
  A forwarder instance: the constructor's arguments (\<open>chainID\<close>, the signer, \<open>address\<close>,
  the authority with its \<open>address\<close>), the abstract methods a subclass implements, and
  the imported functions (\<open>defaultAbiCoder.encode\<close>, \<open>keccak256\<close>, \<open>arrayify\<close>, the
  \<open>deploy\<close> encoder of the delegate deployer's interface, \<open>DELEGATE_DEPLOYER_ADDRESS\<close>).
  \<open>getEncodedReplayProtection\<close> takes the authority's state and returns the token or an
  error, with the state after the call.
\<close>

record ('e, 'a, 'x) Forwarder =
  chainID :: int
  signMessage :: "nat list \<Rightarrow> 'e + string"
  address :: string
  getEncodedReplayProtection :: "'a \<Rightarrow> ('e + string) \<times> 'a"
  authorityAddress :: string
  encodeBatchCallData :: "'x CallData list \<Rightarrow> 'e + string"
  encodeBatchTx :: "'x CallData list \<Rightarrow> string \<Rightarrow> string \<Rightarrow> string \<Rightarrow> 'e + string"
  encodeCallData :: "'x CallData \<Rightarrow> 'e + string"
  encodeTx :: "'x CallData \<Rightarrow> string \<Rightarrow> string \<Rightarrow> string \<Rightarrow> 'e + string"
  toBatchCallData :: "string option \<Rightarrow> string \<Rightarrow> BigNumberish \<Rightarrow> 'e + 'x CallData"
  toCallData :: "string option \<Rightarrow> string \<Rightarrow> BigNumberish \<Rightarrow> 'e + 'x CallData"
  abiEncode :: "string list \<Rightarrow> AbiValue list \<Rightarrow> 'e + string"
  keccak256 :: "string \<Rightarrow> 'e + string"
  arrayify :: "string \<Rightarrow> 'e + nat list"
  deployEncode :: "string \<Rightarrow> BigNumberish \<Rightarrow> string \<Rightarrow> 'e + string"
  DELEGATE_DEPLOYER_ADDRESS :: string

subsection \<open>Operations\<close>

definition called :: "'x Call \<Rightarrow> ('a, 'x) World \<Rightarrow> ('a, 'x) World" where
  "called c w = w\<lparr>trace := trace w @ [c]\<rparr>"

text \<open>\<open>return !!(tx as DeployCallData).salt;\<close> is true for a non-empty string only.\<close>

definition isDeployTx :: "'x CallData \<Rightarrow> bool" where
  "isDeployTx tx = (case cd_salt tx of None \<Rightarrow> False | Some s \<Rightarrow> s \<noteq> [])"

text \<open>\<open>t.salt\<close>, read after \<open>isDeployTx(t)\<close> has held.\<close>

definition saltOf :: "'x CallData \<Rightarrow> string" where
  "saltOf tx = (case cd_salt tx of None \<Rightarrow> [] | Some s \<Rightarrow> s)"

fun truthy :: "BigNumberish \<Rightarrow> bool" where
  "truthy (BnString s) = (s \<noteq> [])"
| "truthy (BnNumber n) = (n \<noteq> 0)"
| "truthy (BnBigNumber n) = True"
| "truthy (BnArray bs) = True"

text \<open>\<open>t.value || "0x"\<close>\<close>

definition valueOr0x :: "BigNumberish option \<Rightarrow> BigNumberish" where
  "valueOr0x v = (case v of None \<Rightarrow> BnString ''0x''
                  | Some b \<Rightarrow> if truthy b then b else BnString ''0x'')"

text \<open>
  \<open>encodeForDeploy\<close>: the array literal is evaluated first, so \<open>keccak256(extraData)\<close>
  runs (and may throw) before \<open>deploy.encode\<close>; \<open>deployer.address\<close> is the address the
  factory was attached to.
\<close>

definition encodeForDeploy ::
  "('e, 'a, 'x) Forwarder \<Rightarrow> string \<Rightarrow> string \<Rightarrow> BigNumberish \<Rightarrow> 'e + MinimalTx" where
  "encodeForDeploy fw initCode extraData v =
     (case keccak256 fw extraData of
        Inl e \<Rightarrow> Inl e
      | Inr h \<Rightarrow>
          (case deployEncode fw initCode v h of
             Inl e \<Rightarrow> Inl e
           | Inr d \<Rightarrow> Inr \<lparr>to = DELEGATE_DEPLOYER_ADDRESS fw, data = d\<rparr>))"

text \<open>
  \<open>encodeAndSignParams\<close>: the encoding, its hash and the conversion to bytes are
  computed, then the signer is called with the bytes.
\<close>

definition encodeAndSignParams ::
  "('e, 'a, 'x) Forwarder \<Rightarrow> string \<Rightarrow> string \<Rightarrow> string \<Rightarrow> ('a, 'x) World
     \<Rightarrow> ('e + string \<times> string) \<times> ('a, 'x) World" where
  "encodeAndSignParams fw callData replayProtection replayProtectionAuthority w =
     (case abiEncode fw [''bytes'', ''bytes'', ''address'', ''address'', ''uint'']
             [AbiString callData, AbiString replayProtection,
              AbiString replayProtectionAuthority, AbiString (address fw),
              AbiNumber (chainID fw)] of
        Inl e \<Rightarrow> (Inl e, w)
      | Inr encodedMetaTx \<Rightarrow>
          (case keccak256 fw encodedMetaTx of
             Inl e \<Rightarrow> (Inl e, w)
           | Inr h \<Rightarrow>
               (case arrayify fw h of
                  Inl e \<Rightarrow> (Inl e, w)
                | Inr msg \<Rightarrow>
                    (case signMessage fw msg of
                       Inl e \<Rightarrow> (Inl e, called (SignMessage msg) w)
                     | Inr signature \<Rightarrow>
                         (Inr (encodedMetaTx, signature), called (SignMessage msg) w)))))"

text \<open>\<open>signAndEncodeMetaTransaction\<close>, statement by statement.\<close>

definition signAndEncodeMetaTransaction ::
  "('e, 'a, 'x) Forwarder \<Rightarrow> 'x CallData \<Rightarrow> ('a, 'x) World
     \<Rightarrow> ('e + MinimalTx) \<times> ('a, 'x) World" where
  "signAndEncodeMetaTransaction fw d w =
     (let w1 = called (EncodeCallData d) w in
      case encodeCallData fw d of
        Inl e \<Rightarrow> (Inl e, w1)
      | Inr encodedCallData \<Rightarrow>
          (let w2 = called GetEncodedReplayProtection w1;
               r = getEncodedReplayProtection fw (authority w2);
               w3 = w2\<lparr>authority := snd r\<rparr> in
           case fst r of
             Inl e \<Rightarrow> (Inl e, w3)
           | Inr replayProtection \<Rightarrow>
               (case encodeAndSignParams fw encodedCallData replayProtection
                       (authorityAddress fw) w3 of
                  (Inl e, w4) \<Rightarrow> (Inl e, w4)
                | (Inr (encodedMetaTx, signature), w4) \<Rightarrow>
                    (let w5 = called (EncodeTx d replayProtection
                                        (authorityAddress fw) signature) w4 in
                     case encodeTx fw d replayProtection (authorityAddress fw) signature of
                       Inl e \<Rightarrow> (Inl e, w5)
                     | Inr encodedTx \<Rightarrow>
                         (Inr \<lparr>to = address fw, data = encodedTx\<rparr>, w5)))))"

text \<open>\<open>signAndEncodeBatchMetaTransaction\<close>, statement by statement.\<close>

definition signAndEncodeBatchMetaTransaction ::
  "('e, 'a, 'x) Forwarder \<Rightarrow> 'x CallData list \<Rightarrow> ('a, 'x) World
     \<Rightarrow> ('e + MinimalTx) \<times> ('a, 'x) World" where
  "signAndEncodeBatchMetaTransaction fw dataList w =
     (let w1 = called (EncodeBatchCallData dataList) w in
      case encodeBatchCallData fw dataList of
        Inl e \<Rightarrow> (Inl e, w1)
      | Inr encodedCallData \<Rightarrow>
          (let w2 = called GetEncodedReplayProtection w1;
               r = getEncodedReplayProtection fw (authority w2);
               w3 = w2\<lparr>authority := snd r\<rparr> in
           case fst r of
             Inl e \<Rightarrow> (Inl e, w3)
           | Inr replayProtection \<Rightarrow>
               (case encodeAndSignParams fw encodedCallData replayProtection
                       (authorityAddress fw) w3 of
                  (Inl e, w4) \<Rightarrow> (Inl e, w4)
                | (Inr (encodedMetaTx, signature), w4) \<Rightarrow>
                    (let w5 = called (EncodeBatchTx dataList replayProtection
                                        (authorityAddress fw) signature) w4 in
                     case encodeBatchTx fw dataList replayProtection
                            (authorityAddress fw) signature of
                       Inl e \<Rightarrow> (Inl e, w5)
                     | Inr encodedBatch \<Rightarrow>
                         (Inr \<lparr>to = address fw, data = encodedBatch\<rparr>, w5)))))"

text \<open>
  The \<open>tx.map\<close> of the batch branch: the elements are visited from left to right and
  the first throw of \<open>toBatchCallData\<close> ends the loop.
\<close>

fun encodedTransactions ::
  "('e, 'a, 'x) Forwarder \<Rightarrow> 'x CallData list \<Rightarrow> ('a, 'x) World
     \<Rightarrow> ('e + 'x CallData list) \<times> ('a, 'x) World" where
  "encodedTransactions fw [] w = (Inr [], w)"
| "encodedTransactions fw (t # ts) w =
     (if isDeployTx t then
        (let w1 = called (ToBatchCallData (cd_data t) (saltOf t) (valueOr0x (cd_value t))) w in
         case toBatchCallData fw (cd_data t) (saltOf t) (valueOr0x (cd_value t)) of
           Inl e \<Rightarrow> (Inl e, w1)
         | Inr t' \<Rightarrow>
             (case encodedTransactions fw ts w1 of
                (Inl e, w2) \<Rightarrow> (Inl e, w2)
              | (Inr ts', w2) \<Rightarrow> (Inr (t' # ts'), w2)))
      else
        (case encodedTransactions fw ts w of
           (Inl e, w2) \<Rightarrow> (Inl e, w2)
         | (Inr ts', w2) \<Rightarrow> (Inr (t # ts'), w2)))"

text \<open>The single branch: \<open>txOrDeploy\<close>.\<close>

definition txOrDeploy ::
  "('e, 'a, 'x) Forwarder \<Rightarrow> 'x CallData \<Rightarrow> ('a, 'x) World
     \<Rightarrow> ('e + 'x CallData) \<times> ('a, 'x) World" where
  "txOrDeploy fw tx w =
     (if isDeployTx tx then
        (toCallData fw (cd_data tx) (saltOf tx) (valueOr0x (cd_value tx)),
         called (ToCallData (cd_data tx) (saltOf tx) (valueOr0x (cd_value tx))) w)
      else (Inr tx, w))"

fun signMetaTransaction ::
  "('e, 'a, 'x) Forwarder \<Rightarrow> 'x MetaTxInput \<Rightarrow> ('a, 'x) World
     \<Rightarrow> ('e + MinimalTx) \<times> ('a, 'x) World" where
  "signMetaTransaction fw (Batch tx) w =
     (case encodedTransactions fw tx w of
        (Inl e, w1) \<Rightarrow> (Inl e, w1)
      | (Inr dataList, w1) \<Rightarrow> signAndEncodeBatchMetaTransaction fw dataList w1)"
| "signMetaTransaction fw (Single tx) w =
     (case txOrDeploy fw tx w of
        (Inl e, w1) \<Rightarrow> (Inl e, w1)
      | (Inr d, w1) \<Rightarrow> signAndEncodeMetaTransaction fw d w1)"

section \<open>What the specification says about signing\<close>

text \<open>
  The definitions of this section follow the words of the specification, not the code;
  the theorems compare them with the operations above.
\<close>

text \<open>
  The canonical signing hash:
  \<open>hash(encode(callData: bytes, token: bytes, authorityAddress: address,
  forwarderAddress: address, chainId: uint))\<close>, as the bytes handed to the signer. The
  forwarder's address and chain id are arguments here, so that the theorems can say which
  ones the code passes.
\<close>

definition canonicalHash ::
  "('e, 'a, 'x) Forwarder \<Rightarrow> string \<Rightarrow> string \<Rightarrow> string \<Rightarrow> string \<Rightarrow> int \<Rightarrow> 'e + nat list" where
  "canonicalHash fw callData token authorityAddr forwarderAddr chainId =
     (case abiEncode fw [''bytes'', ''bytes'', ''address'', ''address'', ''uint'']
             [AbiString callData, AbiString token, AbiString authorityAddr,
              AbiString forwarderAddr, AbiNumber chainId] of
        Inl e \<Rightarrow> Inl e
      | Inr encoded \<Rightarrow>
          (case keccak256 fw encoded of
             Inl e \<Rightarrow> Inl e
           | Inr h \<Rightarrow> arrayify fw h))"

text \<open>"Its salt field is present and non-empty."\<close>

definition hasSalt :: "'x CallData \<Rightarrow> bool" where
  "hasSalt t = (cd_salt t \<noteq> None \<and> cd_salt t \<noteq> Some [])"


text \<open>The calls a run of \<open>signMetaTransaction\<close> makes: what it appends to the trace.\<close>

definition callsOf ::
  "('e, 'a, 'x) Forwarder \<Rightarrow> 'x MetaTxInput \<Rightarrow> ('a, 'x) World \<Rightarrow> 'x Call list" where
  "callsOf fw tx w = drop (length (trace w)) (trace (snd (signMetaTransaction fw tx w)))"

text \<open>Kinds of calls: deploy-lowering, signing, the final encoding, and the two paths.\<close>

fun isLowering :: "'x Call \<Rightarrow> bool" where
  "isLowering (ToCallData p s v) = True"
| "isLowering (ToBatchCallData p s v) = True"
| "isLowering c = False"

fun isSignMessage :: "'x Call \<Rightarrow> bool" where
  "isSignMessage (SignMessage m) = True"
| "isSignMessage c = False"

fun isCallDataEncoding :: "'x Call \<Rightarrow> bool" where
  "isCallDataEncoding (EncodeCallData d) = True"
| "isCallDataEncoding (EncodeBatchCallData ds) = True"
| "isCallDataEncoding c = False"

fun isFinalEncoding :: "'x Call \<Rightarrow> bool" where
  "isFinalEncoding (EncodeTx d rp a s) = True"
| "isFinalEncoding (EncodeBatchTx ds rp a s) = True"
| "isFinalEncoding c = False"



text \<open>The deploy-lowering call of a batch element.\<close>

definition batchLowering :: "'x CallData \<Rightarrow> 'x Call" where
  "batchLowering t = ToBatchCallData (cd_data t) (saltOf t) (valueOr0x (cd_value t))"

text \<open>
  \<open>routed fw t d\<close>: the element \<open>t\<close> of a batch reaches the batch encoders as \<open>d\<close>:
  lowered if it has a salt, unchanged if not.
\<close>

definition routed :: "('e, 'a, 'x) Forwarder \<Rightarrow> 'x CallData \<Rightarrow> 'x CallData \<Rightarrow> bool" where
  "routed fw t d =
     (if hasSalt t
      then toBatchCallData fw (cd_data t) (saltOf t) (valueOr0x (cd_value t)) = Inr d
      else d = t)"

text \<open>
  \<open>loweredAlone fw t d\<close>: the descriptor \<open>t\<close>, passed alone, reaches the single
  encoders as \<open>d\<close>: lowered by \<open>toCallData\<close> if it has a salt, unchanged if not.
\<close>

definition loweredAlone :: "('e, 'a, 'x) Forwarder \<Rightarrow> 'x CallData \<Rightarrow> 'x CallData \<Rightarrow> bool" where
  "loweredAlone fw t d =
     (if hasSalt t
      then toCallData fw (cd_data t) (saltOf t) (valueOr0x (cd_value t)) = Inr d
      else d = t)"

subsection \<open>The steps both signing paths share\<close>

text \<open>
  \<open>signAndEncodeMetaTransaction\<close> and \<open>signAndEncodeBatchMetaTransaction\<close> are the same
  statements around different encoders. These three functions describe, for an encoded
  call data \<open>encoded\<close> and a final encoder, the calls made after the call-data encoding,
  the result and the authority's state; they are used in the proofs only.
\<close>

definition sharedCalls ::
  "('e, 'a, 'x) Forwarder \<Rightarrow> 'a \<Rightarrow> 'e + string
     \<Rightarrow> (string \<Rightarrow> string \<Rightarrow> string \<Rightarrow> 'x Call) \<Rightarrow> 'x Call list" where
  "sharedCalls fw a encoded finalCall =
     (case encoded of
        Inl e \<Rightarrow> []
      | Inr c \<Rightarrow>
          (case fst (getEncodedReplayProtection fw a) of
             Inl e \<Rightarrow> [GetEncodedReplayProtection]
           | Inr rp \<Rightarrow>
               (case canonicalHash fw c rp (authorityAddress fw) (address fw) (chainID fw) of
                  Inl e \<Rightarrow> [GetEncodedReplayProtection]
                | Inr m \<Rightarrow>
                    (case signMessage fw m of
                       Inl e \<Rightarrow> [GetEncodedReplayProtection, SignMessage m]
                     | Inr s \<Rightarrow> [GetEncodedReplayProtection, SignMessage m,
                                  finalCall rp (authorityAddress fw) s]))))"

definition sharedResult ::
  "('e, 'a, 'x) Forwarder \<Rightarrow> 'a \<Rightarrow> 'e + string
     \<Rightarrow> (string \<Rightarrow> string \<Rightarrow> string \<Rightarrow> 'e + string) \<Rightarrow> 'e + MinimalTx" where
  "sharedResult fw a encoded final =
     (case encoded of
        Inl e \<Rightarrow> Inl e
      | Inr c \<Rightarrow>
          (case fst (getEncodedReplayProtection fw a) of
             Inl e \<Rightarrow> Inl e
           | Inr rp \<Rightarrow>
               (case canonicalHash fw c rp (authorityAddress fw) (address fw) (chainID fw) of
                  Inl e \<Rightarrow> Inl e
                | Inr m \<Rightarrow>
                    (case signMessage fw m of
                       Inl e \<Rightarrow> Inl e
                     | Inr s \<Rightarrow>
                         (case final rp (authorityAddress fw) s of
                            Inl e \<Rightarrow> Inl e
                          | Inr x \<Rightarrow> Inr \<lparr>to = address fw, data = x\<rparr>)))))"

definition sharedAuthority :: "('e, 'a, 'x) Forwarder \<Rightarrow> 'a \<Rightarrow> 'e + string \<Rightarrow> 'a" where
  "sharedAuthority fw a encoded =
     (case encoded of Inl e \<Rightarrow> a | Inr c \<Rightarrow> snd (getEncodedReplayProtection fw a))"

section \<open>The replay-protection authorities\<close>

text \<open>
  forwarder.ts and index.ts import the two authorities, \<open>MultiNonceReplayProtection\<close>
  (replayProtection/multiNonce.ts) and \<open>BitFlipReplayProtection\<close>
  (replayProtection/bitFlip.ts); their sources are not part of the files at hand, so
  this section follows sections 3, 4.2 and 4.3 of the specification. A token is modelled
  by the pair it decodes to. Counters and word index are unbounded naturals, as the
  specification has them ("no fixed upper bound").
\<close>

text \<open>
  Modelled from the spec: the failure of token acquisition (multiNonce.ts and bitFlip.ts
  are missing), "the token-acquisition step could not complete (network/read failure)".
\<close>

datatype AuthorityError = AuthorityUnavailable

text \<open>
  Modelled from the spec: the state of the queue scheme (multiNonce.ts is missing), one
  counter per queue. A queue without a cached counter is read from the chain at its first
  use ("queried lazily, cached thereafter"). \<open>issued\<close> counts the tokens handed out,
  for the round-robin selection.
\<close>

record MultiNonceState =
  counters :: "nat \<Rightarrow> nat option"
  issued :: nat

text \<open>
  Modelled from the spec: a new instance of the queue scheme (multiNonce.ts is missing);
  nothing is cached yet.
\<close>

definition multiNonceInitial :: MultiNonceState where
  "multiNonceInitial = \<lparr>counters = (\<lambda>q. None), issued = 0\<rparr>"

text \<open>
  Modelled from the spec: the selection of the queue (multiNonce.ts is missing). The
  specification leaves it open ("round-robin or least-loaded heuristic"), so the selection
  is a parameter of the issuance below; \<open>roundRobin\<close> is one selection.
\<close>

definition roundRobin :: "nat \<Rightarrow> MultiNonceState \<Rightarrow> nat" where
  "roundRobin queueCount st = issued st mod queueCount"

text \<open>
  Modelled from the spec: token issuance of the queue scheme (multiNonce.ts is missing).
  \<open>onChain\<close> is the read of the verifier's stored counter, \<open>None\<close> where the read
  fails; then nothing is issued and the state is unchanged. Otherwise the token is the
  queue index with the queue's counter, and the cached counter advances by one.
\<close>

definition multiNonceIssue ::
  "(MultiNonceState \<Rightarrow> nat) \<Rightarrow> (nat \<Rightarrow> nat option) \<Rightarrow> MultiNonceState
     \<Rightarrow> (AuthorityError + nat \<times> nat) \<times> MultiNonceState" where
  "multiNonceIssue select onChain st =
     (let q = select st in
      case (case counters st q of Some c \<Rightarrow> Some c | None \<Rightarrow> onChain q) of
        None \<Rightarrow> (Inl AuthorityUnavailable, st)
      | Some c \<Rightarrow>
          (Inr (q, c),
           st\<lparr>counters := (counters st)(q \<mapsto> Suc c), issued := Suc (issued st)\<rparr>))"

text \<open>
  Modelled from the spec: the state of the bitmap scheme (bitFlip.ts is missing), the
  current word index and the cursor within that word.
\<close>

record BitFlipState =
  wordIndex :: nat
  cursor :: nat

text \<open>
  Modelled from the spec: token issuance of the bitmap scheme (bitFlip.ts is missing).
  The token is the word index with the pattern that has exactly the bit at the cursor set;
  the cursor advances, and when it reaches 256 the word index increments and the cursor
  resets to 0.
\<close>

definition bitFlipIssue :: "BitFlipState \<Rightarrow> (AuthorityError + nat \<times> nat) \<times> BitFlipState" where
  "bitFlipIssue st =
     (Inr (wordIndex st, 2 ^ cursor st),
      if Suc (cursor st) = 256
      then \<lparr>wordIndex = Suc (wordIndex st), cursor = 0\<rparr>
      else \<lparr>wordIndex = wordIndex st, cursor = Suc (cursor st)\<rparr>)"

text \<open>
  Sequential calls on one instance: each call runs on the state the previous one left.
  \<open>returned\<close> keeps the tokens of the calls that succeeded.
\<close>

fun sequentially :: "('s \<Rightarrow> 'r \<times> 's) list \<Rightarrow> 's \<Rightarrow> 'r list" where
  "sequentially [] st = []"
| "sequentially (call # calls) st = fst (call st) # sequentially calls (snd (call st))"

definition returned :: "('e + 't) list \<Rightarrow> 't list" where
  "returned rs = concat (map (\<lambda>r. case r of Inl e \<Rightarrow> [] | Inr t \<Rightarrow> [t]) rs)"

section \<open>A forwarder to evaluate the model on\<close>

text \<open>
  A small instance in which encoders and hash build readable strings, the authority is
  a counter and the signer always answers. Its deploy-lowering rejects a missing payload
  and its call-data encoder rejects a missing destination, as an ABI encoder would.
\<close>

definition showOpt :: "string option \<Rightarrow> string" where
  "showOpt s = (case s of None \<Rightarrow> ''undefined'' | Some x \<Rightarrow> x)"

fun showAbi :: "AbiValue \<Rightarrow> string" where
  "showAbi (AbiString s) = s @ '';''"
| "showAbi (AbiNumber n) = (if n = 1 then ''1;'' else ''n;'')"

definition showCall :: "unit CallData \<Rightarrow> string" where
  "showCall d = ''{'' @ showOpt (cd_to d) @ '','' @ showOpt (cd_data d) @ ''}''"

definition demoLowering ::
  "string option \<Rightarrow> string \<Rightarrow> BigNumberish \<Rightarrow> string + unit CallData" where
  "demoLowering initCode extraData v =
     (case initCode of
        None \<Rightarrow> Inl ''invalid bytes''
      | Some i \<Rightarrow>
          Inr \<lparr>cd_to = Some ''0xDD'',
               cd_data = Some (''deploy('' @ i @ '',k'' @ extraData @ '')''),
               cd_value = Some v, cd_salt = None, cd_extra = ()\<rparr>)"

definition demoForwarder :: "(string, nat, unit) Forwarder" where
  "demoForwarder =
     \<lparr>chainID = 1,
      signMessage = (\<lambda>m. Inr ''0x51''),
      address = ''0xF0'',
      getEncodedReplayProtection = (\<lambda>n. (Inr (replicate (Suc n) CHR ''t''), Suc n)),
      authorityAddress = ''0xA0'',
      encodeBatchCallData = (\<lambda>ds. Inr (''['' @ concat (map showCall ds) @ '']'')),
      encodeBatchTx = (\<lambda>ds rp a s.
         Inr (''batch(['' @ concat (map showCall ds) @ ''],'' @ rp @ '','' @ a @ '','' @ s @ '')'')),
      encodeCallData = (\<lambda>d. case cd_to d of
                                None \<Rightarrow> Inl ''invalid address''
                              | Some t \<Rightarrow> Inr (showCall d)),
      encodeTx = (\<lambda>d rp a s.
         Inr (''forward('' @ showCall d @ '','' @ rp @ '','' @ a @ '','' @ s @ '')'')),
      toBatchCallData = demoLowering,
      toCallData = demoLowering,
      abiEncode = (\<lambda>tys vs. Inr (concat (map showAbi vs))),
      keccak256 = (\<lambda>s. Inr (''k'' @ s)),
      arrayify = (\<lambda>s. Inr (map of_char s)),
      deployEncode = (\<lambda>i v h. Inr (''deploy('' @ i @ '','' @ h @ '')'')),
      DELEGATE_DEPLOYER_ADDRESS = ''0xDD''\<rparr>"

definition demoWorld :: "(nat, unit) World" where
  "demoWorld = \<lparr>authority = 0, trace = []\<rparr>"

definition demoCall :: "unit CallData" where
  "demoCall = \<lparr>cd_to = Some ''0xC0'', cd_data = Some ''0x01'', cd_value = None,
               cd_salt = None, cd_extra = ()\<rparr>"

definition demoDeploy :: "unit CallData" where
  "demoDeploy = \<lparr>cd_to = None, cd_data = Some ''0x60'', cd_value = None,
                 cd_salt = Some ''0x5A'', cd_extra = ()\<rparr>"

text \<open>A deploy descriptor that also names a destination, which the types forbid.\<close>

definition demoMixed :: "unit CallData" where
  "demoMixed = \<lparr>cd_to = Some ''0xC0'', cd_data = Some ''0x60'', cd_value = None,
                cd_salt = Some ''0x5A'', cd_extra = ()\<rparr>"

text \<open>The instance with an authority that cannot be reached, and with a signer that declines.\<close>

definition demoUnavailable :: "(string, nat, unit) Forwarder" where
  "demoUnavailable =
     demoForwarder\<lparr>getEncodedReplayProtection := (\<lambda>n. (Inl ''authority unavailable'', n))\<rparr>"

definition demoRejecting :: "(string, nat, unit) Forwarder" where
  "demoRejecting = demoForwarder\<lparr>signMessage := (\<lambda>m. Inl ''signing rejected'')\<rparr>"

text \<open>The instance with a hash that reads only the first three characters.\<close>

definition demoShortHash :: "(string, nat, unit) Forwarder" where
  "demoShortHash = demoForwarder\<lparr>keccak256 := (\<lambda>s. Inr (''k'' @ take 3 s))\<rparr>"

text \<open>
  The instance with a lowering that accepts a missing payload (it deploys the text
  "undefined"), and the instance whose batch encoders, on a one-element list, produce
  what the single encoders produce on the element.
\<close>

definition demoLenient :: "(string, nat, unit) Forwarder" where
  "demoLenient =
     demoForwarder\<lparr>toBatchCallData := (\<lambda>p s v. demoLowering (Some (showOpt p)) s v),
                   toCallData := (\<lambda>p s v. demoLowering (Some (showOpt p)) s v)\<rparr>"

definition demoSameEncoders :: "(string, nat, unit) Forwarder" where
  "demoSameEncoders =
     demoForwarder\<lparr>encodeBatchCallData := (\<lambda>ds. Inr (concat (map showCall ds))),
                   encodeBatchTx := (\<lambda>ds rp a s.
                     Inr (''forward('' @ concat (map showCall ds) @ '','' @ rp @ '','' @ a
                            @ '','' @ s @ '')''))\<rparr>"

lemmas demo_defs =
  demoForwarder_def demoWorld_def demoCall_def demoDeploy_def demoMixed_def demoLowering_def
  demoUnavailable_def demoRejecting_def demoShortHash_def demoLenient_def
  demoSameEncoders_def showCall_def showOpt_def

lemmas run_defs =
  signMetaTransaction.simps txOrDeploy_def isDeployTx_def saltOf_def valueOr0x_def
  signAndEncodeMetaTransaction_def signAndEncodeBatchMetaTransaction_def
  encodeAndSignParams_def called_def Let_def encodedTransactions.simps callsOf_def
  canonicalHash_def hasSalt_def

section \<open>Properties of the model\<close>

subsection \<open>Classification and the shared steps\<close>

lemma isDeployTx_hasSalt: "isDeployTx t = hasSalt t"
  by (auto simp: isDeployTx_def hasSalt_def split: option.splits)

lemma filter_hasSalt: "filter isDeployTx ts = filter hasSalt ts"
  by (simp add: isDeployTx_hasSalt cong: filter_cong)

lemma trace_called [simp]: "trace (called c w) = trace w @ [c]"
  by (simp add: called_def)

lemma authority_called [simp]: "authority (called c w) = authority w"
  by (simp add: called_def)

lemma isLowering_other:
  "isLowering c \<Longrightarrow> c \<noteq> GetEncodedReplayProtection \<and> \<not> isSignMessage c \<and> \<not> isFinalEncoding c"
  by (cases c) auto

lemma isFinalEncoding_other:
  "isFinalEncoding c \<Longrightarrow> c \<noteq> GetEncodedReplayProtection \<and> \<not> isSignMessage c
     \<and> \<not> isLowering c \<and> c \<noteq> SignMessage m"
  by (cases c) auto

lemma isCallDataEncoding_other:
  "isCallDataEncoding c \<Longrightarrow> c \<noteq> GetEncodedReplayProtection \<and> \<not> isSignMessage c
     \<and> \<not> isLowering c \<and> \<not> isFinalEncoding c"
  by (cases c) auto

lemma lowering_only:
  assumes "\<forall>c \<in> set cs. isLowering c"
  shows "filter (\<lambda>c. c = GetEncodedReplayProtection) cs = []"
    and "filter isSignMessage cs = []"
    and "filter isFinalEncoding cs = []"
    and "GetEncodedReplayProtection \<notin> set cs"
    and "SignMessage m \<notin> set cs"
  using assms by (auto simp: filter_empty_conv dest: isLowering_other)

lemma calls_filter:
  assumes "\<forall>c \<in> set pre. isLowering c" "isCallDataEncoding ec"
  shows "filter (\<lambda>c. c = GetEncodedReplayProtection) (pre @ ec # cs)
           = filter (\<lambda>c. c = GetEncodedReplayProtection) cs"
    and "filter isSignMessage (pre @ ec # cs) = filter isSignMessage cs"
    and "filter isFinalEncoding (pre @ ec # cs) = filter isFinalEncoding cs"
    and "GetEncodedReplayProtection \<in> set (pre @ ec # cs) \<longleftrightarrow> GetEncodedReplayProtection \<in> set cs"
    and "SignMessage m \<in> set (pre @ ec # cs) \<longleftrightarrow> SignMessage m \<in> set cs"
  using assms lowering_only [OF assms(1)] isCallDataEncoding_other [OF assms(2)]
  by auto

text \<open>\<open>encodeAndSignParams\<close> in terms of the canonical hash.\<close>

lemma encodeAndSignParams_canonical:
  "encodeAndSignParams fw c rp a w =
   (case canonicalHash fw c rp a (address fw) (chainID fw) of
      Inl e \<Rightarrow> (Inl e, w)
    | Inr m \<Rightarrow>
        (case signMessage fw m of
           Inl e \<Rightarrow> Inl e
         | Inr s \<Rightarrow>
             Inr (projr (abiEncode fw [''bytes'', ''bytes'', ''address'', ''address'', ''uint'']
                    [AbiString c, AbiString rp, AbiString a,
                     AbiString (address fw), AbiNumber (chainID fw)]), s),
         called (SignMessage m) w))"
  by (auto simp: encodeAndSignParams_def canonicalHash_def split: sum.splits)

lemma signAndEncodeMetaTransaction_shared:
  "signAndEncodeMetaTransaction fw d w =
     (sharedResult fw (authority w) (encodeCallData fw d) (encodeTx fw d),
      \<lparr>authority = sharedAuthority fw (authority w) (encodeCallData fw d),
       trace = trace w @ EncodeCallData d #
                 sharedCalls fw (authority w) (encodeCallData fw d) (EncodeTx d)\<rparr>)"
  by (simp add: signAndEncodeMetaTransaction_def encodeAndSignParams_canonical Let_def
        sharedResult_def sharedAuthority_def sharedCalls_def called_def split: sum.splits)

lemma signAndEncodeBatchMetaTransaction_shared:
  "signAndEncodeBatchMetaTransaction fw d w =
     (sharedResult fw (authority w) (encodeBatchCallData fw d) (encodeBatchTx fw d),
      \<lparr>authority = sharedAuthority fw (authority w) (encodeBatchCallData fw d),
       trace = trace w @ EncodeBatchCallData d #
                 sharedCalls fw (authority w) (encodeBatchCallData fw d) (EncodeBatchTx d)\<rparr>)"
  by (simp add: signAndEncodeBatchMetaTransaction_def encodeAndSignParams_canonical Let_def
        sharedResult_def sharedAuthority_def sharedCalls_def called_def split: sum.splits)

text \<open>The five ways the shared steps can end.\<close>

lemma shared_cases [consumes 0, case_names encoding_failed authority_failed hash_failed
    signer_failed signed]:
  obtains (encoding_failed) e where
      "en = Inl e"
      "sharedCalls fw a en fc = []"
      "sharedResult fw a en fin = Inl e"
      "sharedAuthority fw a en = a"
  | (authority_failed) c e where
      "en = Inr c" "fst (getEncodedReplayProtection fw a) = Inl e"
      "sharedCalls fw a en fc = [GetEncodedReplayProtection]"
      "sharedResult fw a en fin = Inl e"
  | (hash_failed) c rp e where
      "en = Inr c" "fst (getEncodedReplayProtection fw a) = Inr rp"
      "canonicalHash fw c rp (authorityAddress fw) (address fw) (chainID fw) = Inl e"
      "sharedCalls fw a en fc = [GetEncodedReplayProtection]"
      "sharedResult fw a en fin = Inl e"
  | (signer_failed) c rp m e where
      "en = Inr c" "fst (getEncodedReplayProtection fw a) = Inr rp"
      "canonicalHash fw c rp (authorityAddress fw) (address fw) (chainID fw) = Inr m"
      "signMessage fw m = Inl e"
      "sharedCalls fw a en fc = [GetEncodedReplayProtection, SignMessage m]"
      "sharedResult fw a en fin = Inl e"
  | (signed) c rp m s where
      "en = Inr c" "fst (getEncodedReplayProtection fw a) = Inr rp"
      "canonicalHash fw c rp (authorityAddress fw) (address fw) (chainID fw) = Inr m"
      "signMessage fw m = Inr s"
      "sharedCalls fw a en fc =
         [GetEncodedReplayProtection, SignMessage m, fc rp (authorityAddress fw) s]"
      "sharedResult fw a en fin =
         (case fin rp (authorityAddress fw) s of
            Inl e \<Rightarrow> Inl e
          | Inr x \<Rightarrow> Inr \<lparr>to = address fw, data = x\<rparr>)"
proof (cases en)
  case (Inl e)
  then show thesis
    using that(1) [of e] by (simp add: sharedCalls_def sharedResult_def sharedAuthority_def)
next
  case c: (Inr c)
  show thesis
  proof (cases "fst (getEncodedReplayProtection fw a)")
    case (Inl e)
    with c show thesis
      using that(2) [of c e] by (simp add: sharedCalls_def sharedResult_def)
  next
    case rp: (Inr rp)
    show thesis
    proof (cases "canonicalHash fw c rp (authorityAddress fw) (address fw) (chainID fw)")
      case (Inl e)
      with c rp show thesis
        using that(3) [of c rp e] by (simp add: sharedCalls_def sharedResult_def)
    next
      case m: (Inr m)
      show thesis
      proof (cases "signMessage fw m")
        case (Inl e)
        with c rp m show thesis
          using that(4) [of c rp m e] by (simp add: sharedCalls_def sharedResult_def)
      next
        case (Inr s)
        with c rp m show thesis
          using that(5) [of c rp m s] by (simp add: sharedCalls_def sharedResult_def)
      qed
    qed
  qed
qed

lemma sharedCalls_members:
  "c \<in> set (sharedCalls fw a en fc) \<Longrightarrow>
   c = GetEncodedReplayProtection \<or> (\<exists>m. c = SignMessage m) \<or> (\<exists>rp a s. c = fc rp a s)"
  by (cases rule: shared_cases [of en fw a fc undefined]) auto

lemma sharedCalls_lowering:
  "(\<And>rp a s. isFinalEncoding (fc rp a s)) \<Longrightarrow> filter isLowering (sharedCalls fw a en fc) = []"
  by (auto simp: filter_empty_conv dest!: sharedCalls_members dest: isFinalEncoding_other)

lemma sharedCalls_requests:
  assumes "\<And>rp a s. isFinalEncoding (fc rp a s)"
  shows "filter (\<lambda>c. c = GetEncodedReplayProtection) (sharedCalls fw a en fc) =
     (case en of Inl e \<Rightarrow> [] | Inr c \<Rightarrow> [GetEncodedReplayProtection])"
  using isFinalEncoding_other [OF assms]
  by (cases rule: shared_cases [of en fw a fc undefined]) auto


lemma sharedResult_success:
  "sharedResult fw a en fin = Inr tx \<Longrightarrow>
   \<exists>c rp m s. en = Inr c \<and> fst (getEncodedReplayProtection fw a) = Inr rp
     \<and> canonicalHash fw c rp (authorityAddress fw) (address fw) (chainID fw) = Inr m
     \<and> signMessage fw m = Inr s
     \<and> fin rp (authorityAddress fw) s = Inr (data tx) \<and> to tx = address fw
     \<and> sharedCalls fw a en fc =
           [GetEncodedReplayProtection, SignMessage m, fc rp (authorityAddress fw) s]"
  by (cases rule: shared_cases [of en fw a fc fin]) (auto split: sum.splits)

subsection \<open>The lowering of a batch\<close>

lemma encodedTransactions_deploy:
  "isDeployTx t \<Longrightarrow> encodedTransactions fw (t # ts) w =
     (case toBatchCallData fw (cd_data t) (saltOf t) (valueOr0x (cd_value t)) of
        Inl e \<Rightarrow> (Inl e, called (batchLowering t) w)
      | Inr t' \<Rightarrow>
          (case fst (encodedTransactions fw ts (called (batchLowering t) w)) of
             Inl e \<Rightarrow> Inl e
           | Inr ts' \<Rightarrow> Inr (t' # ts'),
           snd (encodedTransactions fw ts (called (batchLowering t) w))))"
  by (simp add: batchLowering_def Let_def split: sum.splits prod.splits)

lemma encodedTransactions_direct:
  "\<not> isDeployTx t \<Longrightarrow> encodedTransactions fw (t # ts) w =
     (case fst (encodedTransactions fw ts w) of
        Inl e \<Rightarrow> Inl e
      | Inr ts' \<Rightarrow> Inr (t # ts'),
      snd (encodedTransactions fw ts w))"
  by (simp split: sum.splits prod.splits)

declare encodedTransactions.simps(2) [simp del]

lemma encodedTransactions_authority:
  "authority (snd (encodedTransactions fw ts w)) = authority w"
proof (induction ts arbitrary: w)
  case Nil
  show ?case by simp
next
  case (Cons t ts)
  show ?case
  proof (cases "isDeployTx t")
    case True
    then show ?thesis
      using Cons [of "called (batchLowering t) w"]
      by (simp add: encodedTransactions_deploy split: sum.splits)
  next
    case False
    then show ?thesis
      using Cons [of w] by (simp add: encodedTransactions_direct)
  qed
qed

lemma encodedTransactions_trace_ok:
  "fst (encodedTransactions fw ts w) = Inr ds \<Longrightarrow>
   trace (snd (encodedTransactions fw ts w)) = trace w @ map batchLowering (filter isDeployTx ts)"
proof (induction ts arbitrary: w ds)
  case Nil
  show ?case by simp
next
  case (Cons t ts)
  show ?case
  proof (cases "isDeployTx t")
    case True
    with Cons.prems Cons.IH [of "called (batchLowering t) w"] show ?thesis
      by (auto simp: encodedTransactions_deploy split: sum.splits)
  next
    case False
    with Cons.prems Cons.IH [of w] show ?thesis
      by (auto simp: encodedTransactions_direct split: sum.splits)
  qed
qed

lemma encodedTransactions_trace_prefix:
  "\<exists>cs. trace (snd (encodedTransactions fw ts w)) = trace w @ cs \<and>
        prefix cs (map batchLowering (filter isDeployTx ts))"
proof (induction ts arbitrary: w)
  case Nil
  show ?case by simp
next
  case (Cons t ts)
  show ?case
  proof (cases "isDeployTx t")
    case True
    obtain cs where cs: "trace (snd (encodedTransactions fw ts (called (batchLowering t) w)))
        = trace (called (batchLowering t) w) @ cs" "prefix cs (map batchLowering (filter isDeployTx ts))"
      using Cons [of "called (batchLowering t) w"] by blast
    with True show ?thesis
      by (auto simp: encodedTransactions_deploy split: sum.splits)
  next
    case False
    with Cons [of w] show ?thesis
      by (simp add: encodedTransactions_direct)
  qed
qed

lemma encodedTransactions_failed_called:
  "fst (encodedTransactions fw ts w) = Inl e \<Longrightarrow>
   trace (snd (encodedTransactions fw ts w)) \<noteq> trace w"
proof (induction ts arbitrary: w)
  case Nil
  then show ?case by simp
next
  case (Cons t ts)
  show ?case
  proof (cases "isDeployTx t")
    case True
    obtain cs where "trace (snd (encodedTransactions fw ts (called (batchLowering t) w)))
        = trace (called (batchLowering t) w) @ cs"
      using encodedTransactions_trace_prefix by blast
    with True show ?thesis
      by (simp add: encodedTransactions_deploy split: sum.splits)
  next
    case False
    with Cons.prems Cons.IH [of w] show ?thesis
      by (simp add: encodedTransactions_direct split: sum.splits)
  qed
qed

lemma encodedTransactions_routed:
  "fst (encodedTransactions fw ts w) = Inr ds \<Longrightarrow> list_all2 (routed fw) ts ds"
proof (induction ts arbitrary: w ds)
  case Nil
  then show ?case by simp
next
  case (Cons t ts)
  show ?case
  proof (cases "isDeployTx t")
    case True
    with Cons.prems obtain t' ds' where
      *: "toBatchCallData fw (cd_data t) (saltOf t) (valueOr0x (cd_value t)) = Inr t'"
         "fst (encodedTransactions fw ts (called (batchLowering t) w)) = Inr ds'"
         "ds = t' # ds'"
      by (auto simp: encodedTransactions_deploy split: sum.splits)
    from True *(1) have "routed fw t t'" by (simp add: routed_def isDeployTx_hasSalt)
    with Cons.IH [OF *(2)] *(3) show ?thesis by simp
  next
    case False
    with Cons.prems obtain ds' where
      *: "fst (encodedTransactions fw ts w) = Inr ds'" "ds = t # ds'"
      by (auto simp: encodedTransactions_direct split: sum.splits)
    from False have "routed fw t t" by (simp add: routed_def isDeployTx_hasSalt)
    with Cons.IH [OF *(1)] *(2) show ?thesis by simp
  qed
qed

text \<open>
  The loop of the batch branch in terms of \<open>toBatchCallData\<close> alone: it returns the
  list in which every element is lowered or unchanged, and it fails with the error of the
  first element whose lowering is rejected.
\<close>

lemma encodedTransactions_accepts:
  "list_all2 (routed fw) ts ds \<Longrightarrow> fst (encodedTransactions fw ts w) = Inr ds"
proof (induction ts arbitrary: ds w)
  case Nil
  then show ?case by simp
next
  case (Cons t ts)
  from Cons.prems obtain d ds' where ds: "ds = d # ds'" "routed fw t d"
    "list_all2 (routed fw) ts ds'"
    by (auto simp: list_all2_Cons1)
  show ?case
  proof (cases "isDeployTx t")
    case True
    with ds(2) have "toBatchCallData fw (cd_data t) (saltOf t) (valueOr0x (cd_value t)) = Inr d"
      by (simp add: routed_def isDeployTx_hasSalt)
    with True Cons.IH [OF ds(3), of "called (batchLowering t) w"] ds(1) show ?thesis
      by (simp add: encodedTransactions_deploy)
  next
    case False
    with ds(2) have "d = t" by (simp add: routed_def isDeployTx_hasSalt)
    with False Cons.IH [OF ds(3), of w] ds(1) show ?thesis
      by (simp add: encodedTransactions_direct)
  qed
qed


lemma batchLowering_prefix_only:
  assumes "prefix cs (map batchLowering (filter isDeployTx ts))"
  shows "\<forall>c \<in> set cs. isLowering c"
  using set_mono_prefix [OF assms] by (auto simp: batchLowering_def)


lemma filter_batchLowering: "filter isLowering (map batchLowering xs) = map batchLowering xs"
  by (induction xs) (simp_all add: batchLowering_def)

lemma filter_not_batchLowering: "filter (\<lambda>c. \<not> isLowering c) (map batchLowering xs) = []"
  by (induction xs) (simp_all add: batchLowering_def)

subsection \<open>A run of \<open>signMetaTransaction\<close>\<close>

lemma single_summary:
  "signMetaTransaction fw (Single tx) w =
     (if isDeployTx tx then
        (case toCallData fw (cd_data tx) (saltOf tx) (valueOr0x (cd_value tx)) of
           Inl e \<Rightarrow> (Inl e, \<lparr>authority = authority w,
               trace = trace w @ [ToCallData (cd_data tx) (saltOf tx) (valueOr0x (cd_value tx))]\<rparr>)
         | Inr d \<Rightarrow>
            (sharedResult fw (authority w) (encodeCallData fw d) (encodeTx fw d),
             \<lparr>authority = sharedAuthority fw (authority w) (encodeCallData fw d),
              trace = trace w @ ToCallData (cd_data tx) (saltOf tx) (valueOr0x (cd_value tx)) #
                 EncodeCallData d #
                 sharedCalls fw (authority w) (encodeCallData fw d) (EncodeTx d)\<rparr>))
      else
        (sharedResult fw (authority w) (encodeCallData fw tx) (encodeTx fw tx),
         \<lparr>authority = sharedAuthority fw (authority w) (encodeCallData fw tx),
          trace = trace w @ EncodeCallData tx #
             sharedCalls fw (authority w) (encodeCallData fw tx) (EncodeTx tx)\<rparr>))"
  by (simp add: txOrDeploy_def signAndEncodeMetaTransaction_shared called_def split: sum.splits)

lemma batch_run:
  "signMetaTransaction fw (Batch ts) w =
    (case fst (encodedTransactions fw ts w) of
       Inl e \<Rightarrow> (Inl e, snd (encodedTransactions fw ts w))
     | Inr ds \<Rightarrow> signAndEncodeBatchMetaTransaction fw ds (snd (encodedTransactions fw ts w)))"
  by (simp split: sum.splits prod.splits)

text \<open>
  A deploy descriptor is read through its payload, salt and value only: a destination
  it may carry changes nothing.
\<close>

lemma destination_ignored_for_deploy:
  "isDeployTx t \<Longrightarrow>
   signMetaTransaction fw (Single (t\<lparr>cd_to := x\<rparr>)) w = signMetaTransaction fw (Single t) w"
  by (simp add: txOrDeploy_def isDeployTx_def saltOf_def)

declare signMetaTransaction.simps [simp del]

lemma callsOf_single:
  "callsOf fw (Single tx) w =
     (if isDeployTx tx then
        (case toCallData fw (cd_data tx) (saltOf tx) (valueOr0x (cd_value tx)) of
           Inl e \<Rightarrow> [ToCallData (cd_data tx) (saltOf tx) (valueOr0x (cd_value tx))]
         | Inr d \<Rightarrow> ToCallData (cd_data tx) (saltOf tx) (valueOr0x (cd_value tx)) #
                 EncodeCallData d #
                 sharedCalls fw (authority w) (encodeCallData fw d) (EncodeTx d))
      else EncodeCallData tx #
             sharedCalls fw (authority w) (encodeCallData fw tx) (EncodeTx tx))"
  unfolding callsOf_def single_summary by (simp split: sum.splits)

lemma result_single:
  "fst (signMetaTransaction fw (Single tx) w) =
     (if isDeployTx tx then
        (case toCallData fw (cd_data tx) (saltOf tx) (valueOr0x (cd_value tx)) of
           Inl e \<Rightarrow> Inl e
         | Inr d \<Rightarrow> sharedResult fw (authority w) (encodeCallData fw d) (encodeTx fw d))
      else sharedResult fw (authority w) (encodeCallData fw tx) (encodeTx fw tx))"
  unfolding single_summary by (simp split: sum.splits)

lemma authority_single:
  "authority (snd (signMetaTransaction fw (Single tx) w)) =
     (if isDeployTx tx then
        (case toCallData fw (cd_data tx) (saltOf tx) (valueOr0x (cd_value tx)) of
           Inl e \<Rightarrow> authority w
         | Inr d \<Rightarrow> sharedAuthority fw (authority w) (encodeCallData fw d))
      else sharedAuthority fw (authority w) (encodeCallData fw tx))"
  unfolding single_summary by (simp split: sum.splits)

lemma batch_cases [consumes 0, case_names lowering_failed lowered]:
  obtains (lowering_failed) e cs where
      "fst (encodedTransactions fw ts w) = Inl e"
      "prefix cs (map batchLowering (filter isDeployTx ts))"
      "fst (signMetaTransaction fw (Batch ts) w) = Inl e"
      "authority (snd (signMetaTransaction fw (Batch ts) w)) = authority w"
      "callsOf fw (Batch ts) w = cs"
      "cs \<noteq> []"
  | (lowered) ds where
      "fst (encodedTransactions fw ts w) = Inr ds"
      "fst (signMetaTransaction fw (Batch ts) w) =
         sharedResult fw (authority w) (encodeBatchCallData fw ds) (encodeBatchTx fw ds)"
      "authority (snd (signMetaTransaction fw (Batch ts) w)) =
         sharedAuthority fw (authority w) (encodeBatchCallData fw ds)"
      "callsOf fw (Batch ts) w = map batchLowering (filter isDeployTx ts) @
         EncodeBatchCallData ds #
         sharedCalls fw (authority w) (encodeBatchCallData fw ds) (EncodeBatchTx ds)"
proof -
  obtain cs where cs: "trace (snd (encodedTransactions fw ts w)) = trace w @ cs"
    "prefix cs (map batchLowering (filter isDeployTx ts))"
    using encodedTransactions_trace_prefix by blast
  have w1: "snd (encodedTransactions fw ts w) = \<lparr>authority = authority w, trace = trace w @ cs\<rparr>"
    using cs(1) encodedTransactions_authority [of fw ts w] by simp
  show thesis
  proof (cases "fst (encodedTransactions fw ts w)")
    case (Inl e)
    from encodedTransactions_failed_called [OF Inl] cs(1) have "cs \<noteq> []" by auto
    with Inl cs(2) w1 show thesis
      by (intro lowering_failed [of e cs]) (simp_all add: callsOf_def batch_run)
  next
    case (Inr ds)
    from encodedTransactions_trace_ok [OF Inr] cs(1)
    have "cs = map batchLowering (filter isDeployTx ts)" by simp
    with Inr w1 show thesis
      by (intro lowered [of ds])
         (simp_all add: callsOf_def batch_run signAndEncodeBatchMetaTransaction_shared)
  qed
qed

text \<open>
  Every run makes its lowering calls first; unless a lowering threw, the call-data
  encoding and the shared steps follow.
\<close>

lemma run_cases [consumes 0, case_names lowering_failed lowered]:
  obtains (lowering_failed) e pre where
      "\<forall>c \<in> set pre. isLowering c"
      "fst (signMetaTransaction fw tx w) = Inl e"
      "authority (snd (signMetaTransaction fw tx w)) = authority w"
      "callsOf fw tx w = pre"
  | (lowered) pre ec en fc fin where
      "\<forall>c \<in> set pre. isLowering c"
      "isCallDataEncoding ec"
      "\<And>rp a s. isFinalEncoding (fc rp a s)"
      "fst (signMetaTransaction fw tx w) = sharedResult fw (authority w) en fin"
      "authority (snd (signMetaTransaction fw tx w)) = sharedAuthority fw (authority w) en"
      "callsOf fw tx w = pre @ ec # sharedCalls fw (authority w) en fc"
proof (cases tx)
  case (Batch ts)
  show thesis
  proof (cases rule: batch_cases [of fw ts w])
    case (lowering_failed e cs)
    then show thesis
      using that(1) [of cs e] batchLowering_prefix_only [of cs ts] unfolding Batch by simp
  next
    case (lowered ds)
    then show thesis
      using that(2) [of "map batchLowering (filter isDeployTx ts)" "EncodeBatchCallData ds"
          "EncodeBatchTx ds" "encodeBatchCallData fw ds" "encodeBatchTx fw ds"]
      unfolding Batch by (simp add: batchLowering_def)
  qed
next
  case (Single t)
  show thesis
  proof (cases "isDeployTx t")
    case False
    then show thesis
      using that(2) [of "[]" "EncodeCallData t" "EncodeTx t" "encodeCallData fw t" "encodeTx fw t"]
      unfolding Single by (simp add: callsOf_single result_single authority_single)
  next
    case True
    show thesis
    proof (cases "toCallData fw (cd_data t) (saltOf t) (valueOr0x (cd_value t))")
      case (Inl e)
      with True show thesis
        using that(1) [of "[ToCallData (cd_data t) (saltOf t) (valueOr0x (cd_value t))]" e]
        unfolding Single by (simp add: callsOf_single result_single authority_single)
    next
      case (Inr d)
      with True show thesis
        using that(2) [of "[ToCallData (cd_data t) (saltOf t) (valueOr0x (cd_value t))]"
           "EncodeCallData d" "EncodeTx d" "encodeCallData fw d" "encodeTx fw d"]
        unfolding Single by (simp add: callsOf_single result_single authority_single)
    qed
  qed
qed

text \<open>A returned transaction is addressed to the forwarder.\<close>

lemma returned_to_address:
  "fst (signMetaTransaction fw tx w) = Inr m \<Longrightarrow> to m = address fw"
proof (cases rule: run_cases [of fw tx w])
  case (lowering_failed e pre)
  assume "fst (signMetaTransaction fw tx w) = Inr m"
  with lowering_failed(2) show ?thesis by simp
next
  case (lowered pre ec en fc fin)
  assume "fst (signMetaTransaction fw tx w) = Inr m"
  with lowered(4) have "sharedResult fw (authority w) en fin = Inr m" by simp
  from sharedResult_success [OF this] show ?thesis by blast
qed

text \<open>The results of the two paths once the descriptors are lowered.\<close>

lemma result_loweredAlone:
  "loweredAlone fw t d \<Longrightarrow>
   fst (signMetaTransaction fw (Single t) w)
     = sharedResult fw (authority w) (encodeCallData fw d) (encodeTx fw d) \<and>
   authority (snd (signMetaTransaction fw (Single t) w))
     = sharedAuthority fw (authority w) (encodeCallData fw d) \<and>
   callsOf fw (Single t) w =
     (if hasSalt t then [ToCallData (cd_data t) (saltOf t) (valueOr0x (cd_value t))] else [])
       @ EncodeCallData d # sharedCalls fw (authority w) (encodeCallData fw d) (EncodeTx d)"
  by (auto simp: loweredAlone_def result_single authority_single callsOf_single
        isDeployTx_hasSalt)

lemma result_routed:
  assumes "list_all2 (routed fw) ts ds"
  shows "fst (signMetaTransaction fw (Batch ts) w)
     = sharedResult fw (authority w) (encodeBatchCallData fw ds) (encodeBatchTx fw ds)"
    and "authority (snd (signMetaTransaction fw (Batch ts) w))
     = sharedAuthority fw (authority w) (encodeBatchCallData fw ds)"
    and "callsOf fw (Batch ts) w = map batchLowering (filter hasSalt ts) @
         EncodeBatchCallData ds #
         sharedCalls fw (authority w) (encodeBatchCallData fw ds) (EncodeBatchTx ds)"
proof -
  note ok = encodedTransactions_accepts [OF assms, of w]
  show "fst (signMetaTransaction fw (Batch ts) w)
     = sharedResult fw (authority w) (encodeBatchCallData fw ds) (encodeBatchTx fw ds)"
    using ok by (cases rule: batch_cases [of fw ts w]) simp_all
  show "authority (snd (signMetaTransaction fw (Batch ts) w))
     = sharedAuthority fw (authority w) (encodeBatchCallData fw ds)"
    using ok by (cases rule: batch_cases [of fw ts w]) simp_all
  show "callsOf fw (Batch ts) w = map batchLowering (filter hasSalt ts) @
         EncodeBatchCallData ds #
         sharedCalls fw (authority w) (encodeBatchCallData fw ds) (EncodeBatchTx ds)"
    using ok by (cases rule: batch_cases [of fw ts w]) (simp_all add: filter_hasSalt)
qed

lemma sharedResult_all_succeed:
  "en = Inr c \<Longrightarrow> fst (getEncodedReplayProtection fw a) = Inr rp \<Longrightarrow>
   canonicalHash fw c rp (authorityAddress fw) (address fw) (chainID fw) = Inr h \<Longrightarrow>
   signMessage fw h = Inr s \<Longrightarrow> fin rp (authorityAddress fw) s = Inr x \<Longrightarrow>
   sharedResult fw a en fin = Inr \<lparr>to = address fw, data = x\<rparr>"
  by (simp add: sharedResult_def)

subsection \<open>The authorities\<close>

lemma returned_simps [simp]:
  "returned [] = []"
  "returned (Inl e # rs) = returned rs"
  "returned (Inr t # rs) = t # returned rs"
  by (simp_all add: returned_def)

text \<open>A queue's later tokens carry a counter at least as large as the cached one.\<close>

lemma multiNonce_later:
  "(q, c) \<in> set (returned (sequentially (map (multiNonceIssue select) views) st)) \<Longrightarrow>
   counters st q = Some k \<Longrightarrow> k \<le> c"
proof (induction views arbitrary: st k)
  case Nil
  then show ?case by simp
next
  case (Cons v views)
  show ?case
  proof (cases "fst (multiNonceIssue select v st)")
    case (Inl e)
    then have "snd (multiNonceIssue select v st) = st"
      by (auto simp: multiNonceIssue_def Let_def split: option.splits)
    with Cons Inl show ?thesis by simp
  next
    case (Inr t)
    then obtain c0 where t: "t = (select st, c0)"
      and c0: "(case counters st (select st) of Some c \<Rightarrow> Some c | None \<Rightarrow> v (select st)) = Some c0"
      and st': "snd (multiNonceIssue select v st) =
         st\<lparr>counters := (counters st)(select st \<mapsto> Suc c0), issued := Suc (issued st)\<rparr>"
      by (auto simp: multiNonceIssue_def Let_def split: option.splits)
    from Cons.prems(1) Inr
    consider "(q, c) = t"
      | "(q, c) \<in> set (returned (sequentially (map (multiNonceIssue select) views)
            (snd (multiNonceIssue select v st))))"
      by auto
    then show ?thesis
    proof cases
      case 1
      with t c0 Cons.prems(2) show ?thesis by simp
    next
      case 2
      show ?thesis
      proof (cases "q = select st")
        case True
        with Cons.IH [OF 2, of "Suc c0"] st' have "Suc c0 \<le> c" by simp
        moreover from True c0 Cons.prems(2) have "k = c0" by simp
        ultimately show ?thesis by simp
      next
        case False
        with Cons.IH [OF 2, of k] st' Cons.prems(2) show ?thesis by simp
      qed
    qed
  qed
qed

lemma multiNonce_distinct:
  "distinct (returned (sequentially (map (multiNonceIssue select) views) st))"
proof (induction views arbitrary: st)
  case Nil
  show ?case by simp
next
  case (Cons v views)
  show ?case
  proof (cases "fst (multiNonceIssue select v st)")
    case (Inl e)
    with Cons show ?thesis by simp
  next
    case (Inr t)
    then obtain c0 where t: "t = (select st, c0)"
      and st': "snd (multiNonceIssue select v st) =
         st\<lparr>counters := (counters st)(select st \<mapsto> Suc c0), issued := Suc (issued st)\<rparr>"
      by (auto simp: multiNonceIssue_def Let_def split: option.splits)
    have "t \<notin> set (returned (sequentially (map (multiNonceIssue select) views)
            (snd (multiNonceIssue select v st))))"
    proof
      assume "t \<in> set (returned (sequentially (map (multiNonceIssue select) views)
            (snd (multiNonceIssue select v st))))"
      from multiNonce_later [OF this [unfolded t], of "Suc c0"] st' show False by simp
    qed
    with Cons Inr show ?thesis by simp
  qed
qed

lemma bitFlip_token: "fst (bitFlipIssue st) = Inr (wordIndex st, 2 ^ cursor st)"
  by (simp add: bitFlipIssue_def)

lemma bitFlip_advance:
  "wordIndex st < wordIndex (snd (bitFlipIssue st)) \<or>
   wordIndex (snd (bitFlipIssue st)) = wordIndex st \<and>
   cursor (snd (bitFlipIssue st)) = Suc (cursor st)"
  by (simp add: bitFlipIssue_def)

text \<open>Later tokens are in a later word, or in the same word at the cursor or beyond.\<close>

lemma bitFlip_later:
  "(w, p) \<in> set (returned (sequentially (replicate n bitFlipIssue) st)) \<Longrightarrow>
   wordIndex st < w \<or> (wordIndex st = w \<and> 2 ^ cursor st \<le> p)"
proof (induction n arbitrary: st)
  case 0
  then show ?case by simp
next
  case (Suc n)
  from Suc.prems consider "(w, p) = (wordIndex st, 2 ^ cursor st)"
    | "(w, p) \<in> set (returned (sequentially (replicate n bitFlipIssue) (snd (bitFlipIssue st))))"
    by (auto simp: bitFlip_token)
  then show ?case
  proof cases
    case 1
    then show ?thesis by simp
  next
    case 2
    have "(2::nat) ^ cursor st \<le> 2 ^ Suc (cursor st)" by simp
    with Suc.IH [OF 2] bitFlip_advance [of st] show ?thesis
      by (auto intro: order_trans)
  qed
qed

lemma bitFlip_distinct:
  "distinct (returned (sequentially (replicate n bitFlipIssue) st))"
proof (induction n arbitrary: st)
  case 0
  show ?case by simp
next
  case (Suc n)
  have "(wordIndex st, 2 ^ cursor st) \<notin>
      set (returned (sequentially (replicate n bitFlipIssue) (snd (bitFlipIssue st))))"
  proof
    assume "(wordIndex st, 2 ^ cursor st) \<in>
      set (returned (sequentially (replicate n bitFlipIssue) (snd (bitFlipIssue st))))"
    from bitFlip_later [OF this] bitFlip_advance [of st] show False
      by auto
  qed
  with Suc [of "snd (bitFlipIssue st)"] show ?case
    by (simp add: bitFlip_token)
qed

section \<open>The properties of the specification\<close>

subsection \<open>Replay-protection tokens\<close>

text \<open>
  C1. The tokens returned by sequential calls of the token issuance on one authority
  instance are pairwise distinct, for the queue scheme (pairs of queue index and counter)
  and for the bitmap scheme (pairs of word index and bit pattern). For the queue scheme
  this holds for every selection of the queue, every state of the instance and every
  sequence of on-chain reads, failed reads included; for the bitmap scheme for every state
  and every number of calls.
\<close>

theorem issued_tokens_pairwise_distinct:
  "distinct (returned (sequentially (map (multiNonceIssue select) views) m)) \<and>
   distinct (returned (sequentially (replicate n bitFlipIssue) b))"
  by (simp add: multiNonce_distinct bitFlip_distinct)

text \<open>
  Four calls on a fresh queue authority with two queues, the second read failing, and
  three calls on a bitmap authority whose cursor is at bit 254 of word 6174.
\<close>

theorem issued_tokens_pairwise_distinct_witness:
  "returned (sequentially (map (multiNonceIssue (roundRobin 2))
       [\<lambda>q. Some 0, \<lambda>q. None, \<lambda>q. Some 5, \<lambda>q. Some 7]) multiNonceInitial)
     = [(0, 0), (1, 5), (0, 1)] \<and>
   returned (sequentially (replicate (Suc (Suc (Suc 0))) bitFlipIssue)
       \<lparr>wordIndex = 6174, cursor = 254\<rparr>)
     = [(6174, 2 ^ 254), (6174, 2 ^ 255), (6175, 1)] \<and>
   distinct (returned (sequentially (map (multiNonceIssue (roundRobin 2))
       [\<lambda>q. Some 0, \<lambda>q. None, \<lambda>q. Some 5, \<lambda>q. Some 7]) multiNonceInitial)) \<and>
   distinct (returned (sequentially (replicate (Suc (Suc (Suc 0))) bitFlipIssue)
       \<lparr>wordIndex = 6174, cursor = 254\<rparr>))"
  using issued_tokens_pairwise_distinct [of "roundRobin 2"
      "[\<lambda>q. Some 0, \<lambda>q. None, \<lambda>q. Some 5, \<lambda>q. Some 7]" multiNonceInitial
      "Suc (Suc (Suc 0))" "\<lparr>wordIndex = 6174, cursor = 254\<rparr>"]
  by (simp add: multiNonceIssue_def roundRobin_def multiNonceInitial_def bitFlipIssue_def Let_def)

subsection \<open>The forwarder\<close>

text \<open>
  C2. \<open>encodeAndSignParams\<close> hands the signer exactly the canonical hash: the keccak256
  hash of the ABI encoding of (callData, token, authorityAddress, forwarderAddress,
  chainId) with the types bytes, bytes, address, address, uint in this order, where
  forwarderAddress is the instance's \<open>address\<close> and chainId its \<open>chainID\<close>. If the hash
  cannot be computed nothing is signed; otherwise the signer is called once, with the
  hash, and the signature returned is the signer's answer to it.
\<close>

theorem encodeAndSignParams_signs_canonicalHash:
  "case canonicalHash fw callData token authorityAddr (address fw) (chainID fw) of
     Inl e \<Rightarrow> encodeAndSignParams fw callData token authorityAddr w = (Inl e, w)
   | Inr m \<Rightarrow>
       snd (encodeAndSignParams fw callData token authorityAddr w) = called (SignMessage m) w \<and>
       map_sum id snd (fst (encodeAndSignParams fw callData token authorityAddr w))
         = signMessage fw m"
  by (simp add: encodeAndSignParams_canonical split: sum.splits)

theorem encodeAndSignParams_signs_canonicalHash_witness:
  "canonicalHash demoForwarder ''{0xC0,0x01}'' ''t'' ''0xA0'' ''0xF0'' 1
     = Inr (map of_char ''k{0xC0,0x01};t;0xA0;0xF0;1;'') \<and>
   snd (encodeAndSignParams demoForwarder ''{0xC0,0x01}'' ''t'' ''0xA0'' demoWorld)
     = \<lparr>authority = 0, trace = [SignMessage (map of_char ''k{0xC0,0x01};t;0xA0;0xF0;1;'')]\<rparr> \<and>
   fst (encodeAndSignParams demoForwarder ''{0xC0,0x01}'' ''t'' ''0xA0'' demoWorld)
     = Inr (''{0xC0,0x01};t;0xA0;0xF0;1;'', ''0x51'')"
  using encodeAndSignParams_signs_canonicalHash
    [of demoForwarder "''{0xC0,0x01}''" "''t''" "''0xA0''" demoWorld]
  by (simp add: demo_defs canonicalHash_def encodeAndSignParams_def called_def)

text \<open>
  C4. A descriptor is routed through deploy-lowering exactly if its salt is present and
  non-empty. Passed alone, a descriptor without a salt makes no lowering call and is
  itself what \<open>signAndEncodeMetaTransaction\<close> encodes and signs; a descriptor with a
  salt makes one call of \<open>toCallData\<close> (with its payload, salt and value), and what
  \<open>toCallData\<close> returns is what \<open>signAndEncodeMetaTransaction\<close> encodes and signs; if
  \<open>toCallData\<close> throws, the run ends there with that error. In a batch, the lowering
  calls are those of the elements with a salt, in order (up to the first that throws);
  when every element with a salt is lowered by \<open>toBatchCallData\<close>, the list that
  \<open>signAndEncodeBatchMetaTransaction\<close> encodes and signs is the input list with exactly
  those elements replaced by what \<open>toBatchCallData\<close> returned and the others unchanged.
\<close>

theorem deploy_lowering_iff_salt:
  "filter isLowering (callsOf fw (Single t) w) =
     (if hasSalt t then [ToCallData (cd_data t) (saltOf t) (valueOr0x (cd_value t))] else []) \<and>
   (\<not> hasSalt t \<longrightarrow>
      take 1 (callsOf fw (Single t) w) = [EncodeCallData t] \<and>
      signMetaTransaction fw (Single t) w = signAndEncodeMetaTransaction fw t w) \<and>
   (\<forall>d. hasSalt t \<and>
        toCallData fw (cd_data t) (saltOf t) (valueOr0x (cd_value t)) = Inr d \<longrightarrow>
      take 2 (callsOf fw (Single t) w)
        = [ToCallData (cd_data t) (saltOf t) (valueOr0x (cd_value t)), EncodeCallData d] \<and>
      signMetaTransaction fw (Single t) w
        = signAndEncodeMetaTransaction fw d
            (called (ToCallData (cd_data t) (saltOf t) (valueOr0x (cd_value t))) w)) \<and>
   (\<forall>e. hasSalt t \<and>
        toCallData fw (cd_data t) (saltOf t) (valueOr0x (cd_value t)) = Inl e \<longrightarrow>
      signMetaTransaction fw (Single t) w
        = (Inl e, called (ToCallData (cd_data t) (saltOf t) (valueOr0x (cd_value t))) w)) \<and>
   prefix (filter isLowering (callsOf fw (Batch ts) w)) (map batchLowering (filter hasSalt ts)) \<and>
   (\<forall>ds. list_all2 (routed fw) ts ds \<longrightarrow>
      filter isLowering (callsOf fw (Batch ts) w) = map batchLowering (filter hasSalt ts) \<and>
      take 1 (filter (\<lambda>c. \<not> isLowering c) (callsOf fw (Batch ts) w)) = [EncodeBatchCallData ds] \<and>
      fst (signMetaTransaction fw (Batch ts) w)
        = fst (signAndEncodeBatchMetaTransaction fw ds w)) \<and>
   (\<forall>ds. fst (encodedTransactions fw ts w) = Inr ds \<longrightarrow>
      filter isLowering (callsOf fw (Batch ts) w) = map batchLowering (filter hasSalt ts) \<and>
      list_all2 (routed fw) ts ds \<and>
      take 1 (filter (\<lambda>c. \<not> isLowering c) (callsOf fw (Batch ts) w)) = [EncodeBatchCallData ds])"
proof -
  have single: "filter isLowering (callsOf fw (Single t) w) =
     (if hasSalt t then [ToCallData (cd_data t) (saltOf t) (valueOr0x (cd_value t))] else [])"
    by (simp add: callsOf_single isDeployTx_hasSalt sharedCalls_lowering split: sum.splits)
  have direct: "\<not> hasSalt t \<longrightarrow>
      take 1 (callsOf fw (Single t) w) = [EncodeCallData t] \<and>
      signMetaTransaction fw (Single t) w = signAndEncodeMetaTransaction fw t w"
    by (simp add: callsOf_single isDeployTx_hasSalt signMetaTransaction.simps txOrDeploy_def)
  have deploy: "\<forall>d. hasSalt t \<and>
        toCallData fw (cd_data t) (saltOf t) (valueOr0x (cd_value t)) = Inr d \<longrightarrow>
      take 2 (callsOf fw (Single t) w)
        = [ToCallData (cd_data t) (saltOf t) (valueOr0x (cd_value t)), EncodeCallData d] \<and>
      signMetaTransaction fw (Single t) w
        = signAndEncodeMetaTransaction fw d
            (called (ToCallData (cd_data t) (saltOf t) (valueOr0x (cd_value t))) w)"
    by (simp add: callsOf_single isDeployTx_hasSalt signMetaTransaction.simps txOrDeploy_def
          numeral_2_eq_2)
  have thrown: "\<forall>e. hasSalt t \<and>
        toCallData fw (cd_data t) (saltOf t) (valueOr0x (cd_value t)) = Inl e \<longrightarrow>
      signMetaTransaction fw (Single t) w
        = (Inl e, called (ToCallData (cd_data t) (saltOf t) (valueOr0x (cd_value t))) w)"
    by (simp add: isDeployTx_hasSalt signMetaTransaction.simps txOrDeploy_def)
  have batch: "prefix (filter isLowering (callsOf fw (Batch ts) w)) (map batchLowering (filter hasSalt ts)) \<and>
   (\<forall>ds. fst (encodedTransactions fw ts w) = Inr ds \<longrightarrow>
      filter isLowering (callsOf fw (Batch ts) w) = map batchLowering (filter hasSalt ts) \<and>
      list_all2 (routed fw) ts ds \<and>
      take 1 (filter (\<lambda>c. \<not> isLowering c) (callsOf fw (Batch ts) w)) = [EncodeBatchCallData ds])"
  proof (cases rule: batch_cases [of fw ts w])
    case (lowering_failed e cs)
    have "filter isLowering cs = cs"
      using batchLowering_prefix_only [OF lowering_failed(2)] by (simp add: filter_id_conv)
    with lowering_failed show ?thesis by (simp add: filter_hasSalt)
  next
    case (lowered ds)
    have "list_all2 (routed fw) ts ds"
      by (rule encodedTransactions_routed [OF lowered(1)])
    moreover have calls: "callsOf fw (Batch ts) w = map batchLowering (filter hasSalt ts) @
         EncodeBatchCallData ds #
         sharedCalls fw (authority w) (encodeBatchCallData fw ds) (EncodeBatchTx ds)"
      using lowered(4) by (simp add: filter_hasSalt)
    moreover have "filter isLowering (callsOf fw (Batch ts) w) = map batchLowering (filter hasSalt ts)"
      unfolding calls filter_append filter_batchLowering by (simp add: sharedCalls_lowering)
    moreover have "take 1 (filter (\<lambda>c. \<not> isLowering c) (callsOf fw (Batch ts) w))
        = [EncodeBatchCallData ds]"
      unfolding calls filter_append filter_not_batchLowering by simp
    ultimately show ?thesis using lowered(1) by simp
  qed
  have routed: "\<forall>ds. list_all2 (routed fw) ts ds \<longrightarrow>
      filter isLowering (callsOf fw (Batch ts) w) = map batchLowering (filter hasSalt ts) \<and>
      take 1 (filter (\<lambda>c. \<not> isLowering c) (callsOf fw (Batch ts) w)) = [EncodeBatchCallData ds] \<and>
      fst (signMetaTransaction fw (Batch ts) w)
        = fst (signAndEncodeBatchMetaTransaction fw ds w)"
  proof (intro allI impI)
    fix ds
    assume r: "list_all2 (routed fw) ts ds"
    from batch encodedTransactions_accepts [OF r, of w]
    have "filter isLowering (callsOf fw (Batch ts) w) = map batchLowering (filter hasSalt ts)"
      "take 1 (filter (\<lambda>c. \<not> isLowering c) (callsOf fw (Batch ts) w)) = [EncodeBatchCallData ds]"
      by blast+
    moreover have "fst (signMetaTransaction fw (Batch ts) w)
        = fst (signAndEncodeBatchMetaTransaction fw ds w)"
      by (simp add: result_routed(1) [OF r] signAndEncodeBatchMetaTransaction_shared)
    ultimately show "filter isLowering (callsOf fw (Batch ts) w) = map batchLowering (filter hasSalt ts) \<and>
      take 1 (filter (\<lambda>c. \<not> isLowering c) (callsOf fw (Batch ts) w)) = [EncodeBatchCallData ds] \<and>
      fst (signMetaTransaction fw (Batch ts) w)
        = fst (signAndEncodeBatchMetaTransaction fw ds w)"
      by blast
  qed
  from single direct deploy thrown batch routed show ?thesis by blast
qed

text \<open>
  A call without a salt alone, a deploy descriptor alone, a deploy descriptor whose
  lowering throws, and the batch of the deploy descriptor and the call: what is encoded
  is the lowered deploy descriptor and the unchanged call.
\<close>

theorem deploy_lowering_iff_salt_witness:
  "\<not> hasSalt demoCall \<and> hasSalt demoDeploy \<and>
   take 1 (callsOf demoForwarder (Single demoCall) demoWorld) = [EncodeCallData demoCall] \<and>
   toCallData demoForwarder (cd_data demoDeploy) (saltOf demoDeploy)
       (valueOr0x (cd_value demoDeploy))
     = Inr \<lparr>cd_to = Some ''0xDD'', cd_data = Some ''deploy(0x60,k0x5A)'',
            cd_value = Some (BnString ''0x''), cd_salt = None, cd_extra = ()\<rparr> \<and>
   take 2 (callsOf demoForwarder (Single demoDeploy) demoWorld)
     = [ToCallData (Some ''0x60'') ''0x5A'' (BnString ''0x''),
        EncodeCallData \<lparr>cd_to = Some ''0xDD'', cd_data = Some ''deploy(0x60,k0x5A)'',
            cd_value = Some (BnString ''0x''), cd_salt = None, cd_extra = ()\<rparr>] \<and>
   fst (signMetaTransaction demoForwarder (Single demoDeploy) demoWorld)
     = Inr \<lparr>to = ''0xF0'', data = ''forward({0xDD,deploy(0x60,k0x5A)},t,0xA0,0x51)''\<rparr> \<and>
   hasSalt (demoDeploy\<lparr>cd_data := None\<rparr>) \<and>
   signMetaTransaction demoForwarder (Single (demoDeploy\<lparr>cd_data := None\<rparr>)) demoWorld
     = (Inl ''invalid bytes'',
        \<lparr>authority = 0, trace = [ToCallData None ''0x5A'' (BnString ''0x'')]\<rparr>) \<and>
   list_all2 (routed demoForwarder) [demoDeploy, demoCall]
     [\<lparr>cd_to = Some ''0xDD'', cd_data = Some ''deploy(0x60,k0x5A)'',
        cd_value = Some (BnString ''0x''), cd_salt = None, cd_extra = ()\<rparr>, demoCall] \<and>
   filter isLowering (callsOf demoForwarder (Batch [demoDeploy, demoCall]) demoWorld)
     = [ToBatchCallData (Some ''0x60'') ''0x5A'' (BnString ''0x'')] \<and>
   take 1 (filter (\<lambda>c. \<not> isLowering c)
       (callsOf demoForwarder (Batch [demoDeploy, demoCall]) demoWorld))
     = [EncodeBatchCallData
          [\<lparr>cd_to = Some ''0xDD'', cd_data = Some ''deploy(0x60,k0x5A)'',
             cd_value = Some (BnString ''0x''), cd_salt = None, cd_extra = ()\<rparr>, demoCall]]"
proof -
  let ?d = "\<lparr>cd_to = Some ''0xDD'', cd_data = Some ''deploy(0x60,k0x5A)'',
            cd_value = Some (BnString ''0x''), cd_salt = None, cd_extra = ()\<rparr> :: unit CallData"
  let ?bad = "demoDeploy\<lparr>cd_data := None\<rparr>"
  have salt: "\<not> hasSalt demoCall" "hasSalt demoDeploy" "hasSalt ?bad"
    by (simp_all add: demo_defs hasSalt_def)
  have low: "toCallData demoForwarder (cd_data demoDeploy) (saltOf demoDeploy)
       (valueOr0x (cd_value demoDeploy)) = Inr ?d"
    by (simp add: demo_defs saltOf_def valueOr0x_def)
  have thrown: "toCallData demoForwarder (cd_data ?bad) (saltOf ?bad)
       (valueOr0x (cd_value ?bad)) = Inl ''invalid bytes''"
    by (simp add: demo_defs saltOf_def valueOr0x_def)
  have routed: "list_all2 (routed demoForwarder) [demoDeploy, demoCall] [?d, demoCall]"
    by (simp add: routed_def hasSalt_def demo_defs saltOf_def valueOr0x_def)
  have ev:
    "called (ToCallData (cd_data ?bad) (saltOf ?bad) (valueOr0x (cd_value ?bad))) demoWorld
       = \<lparr>authority = 0, trace = [ToCallData None ''0x5A'' (BnString ''0x'')]\<rparr>"
    "ToCallData (cd_data demoDeploy) (saltOf demoDeploy) (valueOr0x (cd_value demoDeploy))
       = (ToCallData (Some ''0x60'') ''0x5A'' (BnString ''0x'') :: unit Call)"
    "map batchLowering (filter hasSalt [demoDeploy, demoCall])
       = [ToBatchCallData (Some ''0x60'') ''0x5A'' (BnString ''0x'')]"
    by (simp_all add: demo_defs saltOf_def valueOr0x_def called_def batchLowering_def hasSalt_def)
  have res: "fst (signMetaTransaction demoForwarder (Single demoDeploy) demoWorld)
     = Inr \<lparr>to = ''0xF0'', data = ''forward({0xDD,deploy(0x60,k0x5A)},t,0xA0,0x51)''\<rparr>"
    by (simp add: demo_defs run_defs)
  note a = deploy_lowering_iff_salt [of demoForwarder demoCall demoWorld "[demoDeploy, demoCall]"]
  note b = deploy_lowering_iff_salt [of demoForwarder demoDeploy demoWorld "[]"]
  note c = deploy_lowering_iff_salt [of demoForwarder ?bad demoWorld "[]"]
  from a salt(1) have 1: "take 1 (callsOf demoForwarder (Single demoCall) demoWorld)
      = [EncodeCallData demoCall]"
    by blast
  from b salt(2) low have 2: "take 2 (callsOf demoForwarder (Single demoDeploy) demoWorld)
     = [ToCallData (cd_data demoDeploy) (saltOf demoDeploy) (valueOr0x (cd_value demoDeploy)),
        EncodeCallData ?d]"
    by blast
  from c salt(3) thrown have 3: "signMetaTransaction demoForwarder (Single ?bad) demoWorld
     = (Inl ''invalid bytes'',
        called (ToCallData (cd_data ?bad) (saltOf ?bad) (valueOr0x (cd_value ?bad))) demoWorld)"
    by blast
  from a routed have 4:
    "filter isLowering (callsOf demoForwarder (Batch [demoDeploy, demoCall]) demoWorld)
       = map batchLowering (filter hasSalt [demoDeploy, demoCall])"
    "take 1 (filter (\<lambda>c. \<not> isLowering c)
       (callsOf demoForwarder (Batch [demoDeploy, demoCall]) demoWorld))
     = [EncodeBatchCallData [?d, demoCall]]"
    by blast+
  from salt low routed res 1 2 [unfolded ev] 3 [unfolded ev] 4 [unfolded ev]
  show ?thesis by simp
qed

text \<open>
  C5. Signing a batch requests one token and produces one signature, over the one
  canonical hash built from the batch call-data encoding of the whole list. On every run
  at most one token is requested and the signer is called at most once; once the batch
  call data is encoded, exactly one token is requested. When the run returns a
  transaction, the list \<open>ds\<close> that is encoded is the input list, element by
  element, lowered or unchanged; exactly one token \<open>rp\<close> was requested; the signer was
  called exactly once, with the canonical hash of \<open>encodeBatchCallData ds\<close>, the token,
  the authority's address, the forwarder's address and its chain id; and the
  transaction's data is \<open>encodeBatchTx\<close> of the list, the token, the authority's
  address and that signature.
\<close>

theorem batch_one_token_one_signature:
  "length (filter (\<lambda>c. c = GetEncodedReplayProtection) (callsOf fw (Batch ts) w)) \<le> 1 \<and>
   length (filter isSignMessage (callsOf fw (Batch ts) w)) \<le> 1 \<and>
   (\<forall>ds c. fst (encodedTransactions fw ts w) = Inr ds \<and> encodeBatchCallData fw ds = Inr c \<longrightarrow>
      filter (\<lambda>c. c = GetEncodedReplayProtection) (callsOf fw (Batch ts) w)
        = [GetEncodedReplayProtection]) \<and>
   (fst (signMetaTransaction fw (Batch ts) w) = Inr tx \<longrightarrow>
     (\<exists>ds c rp m s.
        list_all2 (routed fw) ts ds \<and>
        encodeBatchCallData fw ds = Inr c \<and>
        fst (getEncodedReplayProtection fw (authority w)) = Inr rp \<and>
        canonicalHash fw c rp (authorityAddress fw) (address fw) (chainID fw) = Inr m \<and>
        signMessage fw m = Inr s \<and>
        encodeBatchTx fw ds rp (authorityAddress fw) s = Inr (data tx) \<and>
        filter (\<lambda>c. c = GetEncodedReplayProtection) (callsOf fw (Batch ts) w)
          = [GetEncodedReplayProtection] \<and>
        filter isSignMessage (callsOf fw (Batch ts) w) = [SignMessage m]))"
proof (cases rule: batch_cases [of fw ts w])
  case (lowering_failed e cs)
  from lowering_only [OF batchLowering_prefix_only [OF lowering_failed(2)]] lowering_failed(1,3,5)
  show ?thesis by simp
next
  case (lowered ds)
  have pre: "\<forall>c \<in> set (map batchLowering (filter isDeployTx ts)). isLowering c"
    by (simp add: batchLowering_def)
  have ec: "isCallDataEncoding (EncodeBatchCallData ds)" by simp
  note flt = calls_filter [OF pre ec]
  have routed: "list_all2 (routed fw) ts ds"
    by (rule encodedTransactions_routed [OF lowered(1)])
  have calls:
    "filter (\<lambda>c. c = GetEncodedReplayProtection) (callsOf fw (Batch ts) w) =
       filter (\<lambda>c. c = GetEncodedReplayProtection)
         (sharedCalls fw (authority w) (encodeBatchCallData fw ds) (EncodeBatchTx ds))"
    "filter isSignMessage (callsOf fw (Batch ts) w) =
       filter isSignMessage
         (sharedCalls fw (authority w) (encodeBatchCallData fw ds) (EncodeBatchTx ds))"
    unfolding lowered(4) by (rule flt)+
  have req: "\<forall>ds c. fst (encodedTransactions fw ts w) = Inr ds \<and>
      encodeBatchCallData fw ds = Inr c \<longrightarrow>
      filter (\<lambda>c. c = GetEncodedReplayProtection) (callsOf fw (Batch ts) w)
        = [GetEncodedReplayProtection]"
    unfolding calls(1) lowered(1) by (auto simp: sharedCalls_requests)
  show ?thesis
  proof (cases rule: shared_cases [of "encodeBatchCallData fw ds" fw "authority w"
        "EncodeBatchTx ds" "encodeBatchTx fw ds"])
    case (encoding_failed e)
    with req show ?thesis unfolding lowered(2) calls(2) by (simp add: calls(1))
  next
    case (authority_failed c e)
    with req show ?thesis unfolding lowered(2) calls(2) by (simp add: calls(1))
  next
    case (hash_failed c rp e)
    with req show ?thesis unfolding lowered(2) calls(2) by (simp add: calls(1))
  next
    case (signer_failed c rp m e)
    with req show ?thesis unfolding lowered(2) calls(2) by (simp add: calls(1))
  next
    case (signed c rp m s)
    show ?thesis
    proof (intro conjI impI)
      assume ok: "fst (signMetaTransaction fw (Batch ts) w) = Inr tx"
      with signed(6) lowered(2)
      have "encodeBatchTx fw ds rp (authorityAddress fw) s = Inr (data tx)"
        by (auto split: sum.splits)
      with routed signed show "\<exists>ds c rp m s.
        list_all2 (routed fw) ts ds \<and>
        encodeBatchCallData fw ds = Inr c \<and>
        fst (getEncodedReplayProtection fw (authority w)) = Inr rp \<and>
        canonicalHash fw c rp (authorityAddress fw) (address fw) (chainID fw) = Inr m \<and>
        signMessage fw m = Inr s \<and>
        encodeBatchTx fw ds rp (authorityAddress fw) s = Inr (data tx) \<and>
        filter (\<lambda>c. c = GetEncodedReplayProtection) (callsOf fw (Batch ts) w)
          = [GetEncodedReplayProtection] \<and>
        filter isSignMessage (callsOf fw (Batch ts) w) = [SignMessage m]"
        unfolding calls
        by (intro exI [of _ ds] exI [of _ c] exI [of _ rp] exI [of _ m] exI [of _ s]) simp
    qed (use req in \<open>simp_all add: calls signed(5)\<close>)
  qed
qed

text \<open>The batch of a deploy descriptor and a direct call (scenario D).\<close>

theorem batch_one_token_one_signature_witness:
  "fst (signMetaTransaction demoForwarder (Batch [demoDeploy, demoCall]) demoWorld)
     = Inr \<lparr>to = ''0xF0'',
            data = ''batch([{0xDD,deploy(0x60,k0x5A)}{0xC0,0x01}],t,0xA0,0x51)''\<rparr> \<and>
   filter (\<lambda>c. c = GetEncodedReplayProtection)
       (callsOf demoForwarder (Batch [demoDeploy, demoCall]) demoWorld)
     = [GetEncodedReplayProtection] \<and>
   filter isSignMessage (callsOf demoForwarder (Batch [demoDeploy, demoCall]) demoWorld)
     = [SignMessage (map of_char ''k[{0xDD,deploy(0x60,k0x5A)}{0xC0,0x01}];t;0xA0;0xF0;1;'')]"
proof -
  have ok: "fst (signMetaTransaction demoForwarder (Batch [demoDeploy, demoCall]) demoWorld)
     = Inr \<lparr>to = ''0xF0'',
            data = ''batch([{0xDD,deploy(0x60,k0x5A)}{0xC0,0x01}],t,0xA0,0x51)''\<rparr>"
    by (simp add: demo_defs run_defs)
  from batch_one_token_one_signature [of demoForwarder "[demoDeploy, demoCall]" demoWorld
      "\<lparr>to = ''0xF0'', data = ''batch([{0xDD,deploy(0x60,k0x5A)}{0xC0,0x01}],t,0xA0,0x51)''\<rparr>"] ok
  show ?thesis
    by (simp add: demo_defs run_defs)
qed

text \<open>
  C6. \<open>encodeForDeploy\<close> lowers (initCode, salt, value) to a call whose destination is
  the delegate deployer's address and whose payload is the \<open>deploy\<close> invocation encoded
  from the init code, the value and the keccak256 hash of the salt. The salt enters the
  result through its hash only: two salts with the same hash give the same result.
\<close>

theorem encodeForDeploy_lowering:
  "(\<forall>tx. encodeForDeploy fw initCode salt v = Inr tx \<longrightarrow>
      to tx = DELEGATE_DEPLOYER_ADDRESS fw \<and>
      (\<exists>saltHash. keccak256 fw salt = Inr saltHash \<and>
         deployEncode fw initCode v saltHash = Inr (data tx))) \<and>
   (\<forall>saltHash payload.
      keccak256 fw salt = Inr saltHash \<and> deployEncode fw initCode v saltHash = Inr payload \<longrightarrow>
      encodeForDeploy fw initCode salt v
        = Inr \<lparr>to = DELEGATE_DEPLOYER_ADDRESS fw, data = payload\<rparr>) \<and>
   (keccak256 fw salt = keccak256 fw salt' \<longrightarrow>
      encodeForDeploy fw initCode salt v = encodeForDeploy fw initCode salt' v)"
  by (auto simp: encodeForDeploy_def split: sum.splits)

text \<open>
  With a hash that reads the first three characters, the salts 0x5A and 0x5B collide
  and are lowered to the same call.
\<close>

theorem encodeForDeploy_lowering_witness:
  "keccak256 demoShortHash ''0x5A'' = Inr ''k0x5'' \<and>
   keccak256 demoShortHash ''0x5A'' = keccak256 demoShortHash ''0x5B'' \<and>
   deployEncode demoShortHash ''0x60'' (BnString ''0x'') ''k0x5'' = Inr ''deploy(0x60,k0x5)'' \<and>
   DELEGATE_DEPLOYER_ADDRESS demoShortHash = ''0xDD'' \<and>
   encodeForDeploy demoShortHash ''0x60'' ''0x5A'' (BnString ''0x'')
     = Inr \<lparr>to = ''0xDD'', data = ''deploy(0x60,k0x5)''\<rparr> \<and>
   encodeForDeploy demoShortHash ''0x60'' ''0x5B'' (BnString ''0x'')
     = Inr \<lparr>to = ''0xDD'', data = ''deploy(0x60,k0x5)''\<rparr>"
proof -
  have h1: "keccak256 demoShortHash ''0x5A'' = Inr ''k0x5''"
    by (simp add: demoShortHash_def demoForwarder_def)
  have h2: "keccak256 demoShortHash ''0x5A'' = keccak256 demoShortHash ''0x5B''"
    by (simp add: demoShortHash_def demoForwarder_def)
  have h3: "deployEncode demoShortHash ''0x60'' (BnString ''0x'') ''k0x5''
      = Inr ''deploy(0x60,k0x5)''"
    by (simp add: demoShortHash_def demoForwarder_def)
  have h4: "DELEGATE_DEPLOYER_ADDRESS demoShortHash = ''0xDD''"
    by (simp add: demoShortHash_def demoForwarder_def)
  note inst = encodeForDeploy_lowering
    [of demoShortHash "''0x60''" "''0x5A''" "BnString ''0x''" "''0x5B''"]
  from inst h1 h3 have a: "encodeForDeploy demoShortHash ''0x60'' ''0x5A'' (BnString ''0x'')
     = Inr \<lparr>to = DELEGATE_DEPLOYER_ADDRESS demoShortHash, data = ''deploy(0x60,k0x5)''\<rparr>"
    by blast
  from inst h2 have b: "encodeForDeploy demoShortHash ''0x60'' ''0x5A'' (BnString ''0x'')
     = encodeForDeploy demoShortHash ''0x60'' ''0x5B'' (BnString ''0x'')"
    by blast
  from a b h1 h2 h3 h4 show ?thesis by simp
qed




text \<open>
  C8. A failure of the authority's token acquisition or of the signer reaches the caller
  unchanged, for a single call and for a batch. If the authority is asked and fails with
  \<open>e\<close>, the run fails with \<open>e\<close>; the authority was asked once, the signer was not
  invoked and nothing was encoded for submission. If the signer is called on \<open>m\<close> and
  fails with \<open>e\<close>, the run fails with \<open>e\<close>; the authority was asked once, the signer
  was called once and nothing was encoded for submission.
\<close>

theorem authority_and_signer_failures_propagate:
  "(GetEncodedReplayProtection \<in> set (callsOf fw tx w) \<and>
      fst (getEncodedReplayProtection fw (authority w)) = Inl e \<longrightarrow>
        fst (signMetaTransaction fw tx w) = Inl e \<and>
        filter (\<lambda>c. c = GetEncodedReplayProtection) (callsOf fw tx w)
          = [GetEncodedReplayProtection] \<and>
        filter isSignMessage (callsOf fw tx w) = [] \<and>
        filter isFinalEncoding (callsOf fw tx w) = []) \<and>
   (SignMessage m \<in> set (callsOf fw tx w) \<and> signMessage fw m = Inl e \<longrightarrow>
        fst (signMetaTransaction fw tx w) = Inl e \<and>
        filter (\<lambda>c. c = GetEncodedReplayProtection) (callsOf fw tx w)
          = [GetEncodedReplayProtection] \<and>
        filter isSignMessage (callsOf fw tx w) = [SignMessage m] \<and>
        filter isFinalEncoding (callsOf fw tx w) = [])"
proof (cases rule: run_cases [of fw tx w])
  case (lowering_failed e' pre)
  then show ?thesis
    using lowering_only [OF lowering_failed(1)] by simp
next
  case (lowered pre ec en fc fin)
  note flt = calls_filter [OF lowered(1,2)]
  have fin: "fc rp a s \<noteq> GetEncodedReplayProtection" "\<not> isSignMessage (fc rp a s)"
    "SignMessage m \<noteq> fc rp a s" for rp a s
    using isFinalEncoding_other [OF lowered(3), of rp a s m] by auto
  show ?thesis
  proof (cases rule: shared_cases [of en fw "authority w" fc fin])
    case (encoding_failed e')
    then show ?thesis unfolding lowered(4,6) flt by simp
  next
    case (authority_failed c e')
    then show ?thesis unfolding lowered(4,6) flt by simp
  next
    case (hash_failed c rp e')
    then show ?thesis unfolding lowered(4,6) flt by simp
  next
    case (signer_failed c rp m' e')
    then show ?thesis unfolding lowered(4,6) flt by auto
  next
    case (signed c rp m' s)
    then show ?thesis unfolding lowered(4,6) flt using fin lowered(3) by auto
  qed
qed

text \<open>
  A batch with an authority that cannot be reached, and a single call with a signer that
  declines.
\<close>

theorem authority_and_signer_failures_propagate_witness:
  "fst (getEncodedReplayProtection demoUnavailable (authority demoWorld))
     = Inl ''authority unavailable'' \<and>
   signMetaTransaction demoUnavailable (Batch [demoDeploy, demoCall]) demoWorld
     = (Inl ''authority unavailable'',
        \<lparr>authority = 0,
         trace = [ToBatchCallData (Some ''0x60'') ''0x5A'' (BnString ''0x''),
                  EncodeBatchCallData
                    [\<lparr>cd_to = Some ''0xDD'', cd_data = Some ''deploy(0x60,k0x5A)'',
                       cd_value = Some (BnString ''0x''), cd_salt = None, cd_extra = ()\<rparr>,
                     demoCall],
                  GetEncodedReplayProtection]\<rparr>) \<and>
   filter isSignMessage (callsOf demoUnavailable (Batch [demoDeploy, demoCall]) demoWorld) = [] \<and>
   signMessage demoRejecting (map of_char ''k{0xC0,0x01};t;0xA0;0xF0;1;'')
     = Inl ''signing rejected'' \<and>
   signMetaTransaction demoRejecting (Single demoCall) demoWorld
     = (Inl ''signing rejected'',
        \<lparr>authority = 1,
         trace = [EncodeCallData demoCall, GetEncodedReplayProtection,
                  SignMessage (map of_char ''k{0xC0,0x01};t;0xA0;0xF0;1;'')]\<rparr>) \<and>
   filter isFinalEncoding (callsOf demoRejecting (Single demoCall) demoWorld) = []"
proof -
  have a1: "GetEncodedReplayProtection
      \<in> set (callsOf demoUnavailable (Batch [demoDeploy, demoCall]) demoWorld)"
    by (simp add: demo_defs run_defs)
  have a2: "fst (getEncodedReplayProtection demoUnavailable (authority demoWorld))
      = Inl ''authority unavailable''"
    by (simp add: demo_defs)
  have a3: "signMetaTransaction demoUnavailable (Batch [demoDeploy, demoCall]) demoWorld
     = (Inl ''authority unavailable'',
        \<lparr>authority = 0,
         trace = [ToBatchCallData (Some ''0x60'') ''0x5A'' (BnString ''0x''),
                  EncodeBatchCallData
                    [\<lparr>cd_to = Some ''0xDD'', cd_data = Some ''deploy(0x60,k0x5A)'',
                       cd_value = Some (BnString ''0x''), cd_salt = None, cd_extra = ()\<rparr>,
                     demoCall],
                  GetEncodedReplayProtection]\<rparr>)"
    by (simp add: demo_defs run_defs)
  have s1: "SignMessage (map of_char ''k{0xC0,0x01};t;0xA0;0xF0;1;'')
      \<in> set (callsOf demoRejecting (Single demoCall) demoWorld)"
    by (simp add: demo_defs run_defs)
  have s2: "signMessage demoRejecting (map of_char ''k{0xC0,0x01};t;0xA0;0xF0;1;'')
      = Inl ''signing rejected''"
    by (simp add: demo_defs)
  have s3: "signMetaTransaction demoRejecting (Single demoCall) demoWorld
     = (Inl ''signing rejected'',
        \<lparr>authority = 1,
         trace = [EncodeCallData demoCall, GetEncodedReplayProtection,
                  SignMessage (map of_char ''k{0xC0,0x01};t;0xA0;0xF0;1;'')]\<rparr>)"
    by (simp add: demo_defs run_defs)
  from authority_and_signer_failures_propagate
    [of demoUnavailable "Batch [demoDeploy, demoCall]" demoWorld "''authority unavailable''"]
    a1 a2
  have a4: "filter isSignMessage
      (callsOf demoUnavailable (Batch [demoDeploy, demoCall]) demoWorld) = []"
    by blast
  from authority_and_signer_failures_propagate
    [of demoRejecting "Single demoCall" demoWorld "''signing rejected''"
        "map of_char ''k{0xC0,0x01};t;0xA0;0xF0;1;''"]
    s1 s2
  have s4: "filter isFinalEncoding (callsOf demoRejecting (Single demoCall) demoWorld) = []"
    by blast
  from a2 a3 a4 s2 s3 s4 show ?thesis by blast
qed

text \<open>
  C9. The destination \<open>to\<close> of the transaction \<open>signMetaTransaction\<close> returns is the
  forwarder's own \<open>address\<close>, for a single call and for a batch. Whenever a transaction
  is returned its \<open>to\<close> is \<open>address\<close>. And a transaction is returned on both paths:
  once the descriptor (or every element of the array) is lowered or unchanged and call
  data encoding, token acquisition, hashing, signing and final encoding succeed, the
  result is the transaction to \<open>address\<close> whose data is what \<open>encodeTx\<close> (or
  \<open>encodeBatchTx\<close>) returned.
\<close>

theorem minimalTx_to_is_forwarder_address:
  "(\<forall>m. fst (signMetaTransaction fw tx w) = Inr m \<longrightarrow> to m = address fw) \<and>
   (\<forall>d c rp h s x.
      loweredAlone fw t d \<and> encodeCallData fw d = Inr c \<and>
      fst (getEncodedReplayProtection fw (authority w)) = Inr rp \<and>
      canonicalHash fw c rp (authorityAddress fw) (address fw) (chainID fw) = Inr h \<and>
      signMessage fw h = Inr s \<and>
      encodeTx fw d rp (authorityAddress fw) s = Inr x \<longrightarrow>
      fst (signMetaTransaction fw (Single t) w) = Inr \<lparr>to = address fw, data = x\<rparr>) \<and>
   (\<forall>ds c rp h s x.
      list_all2 (routed fw) ts ds \<and> encodeBatchCallData fw ds = Inr c \<and>
      fst (getEncodedReplayProtection fw (authority w)) = Inr rp \<and>
      canonicalHash fw c rp (authorityAddress fw) (address fw) (chainID fw) = Inr h \<and>
      signMessage fw h = Inr s \<and>
      encodeBatchTx fw ds rp (authorityAddress fw) s = Inr x \<longrightarrow>
      fst (signMetaTransaction fw (Batch ts) w) = Inr \<lparr>to = address fw, data = x\<rparr>)"
proof (intro conjI allI impI; (elim conjE)?)
  fix m
  assume "fst (signMetaTransaction fw tx w) = Inr m"
  then show "to m = address fw" by (rule returned_to_address)
next
  fix d c rp h s x
  assume "loweredAlone fw t d" "encodeCallData fw d = Inr c"
    "fst (getEncodedReplayProtection fw (authority w)) = Inr rp"
    "canonicalHash fw c rp (authorityAddress fw) (address fw) (chainID fw) = Inr h"
    "signMessage fw h = Inr s" "encodeTx fw d rp (authorityAddress fw) s = Inr x"
  then show "fst (signMetaTransaction fw (Single t) w) = Inr \<lparr>to = address fw, data = x\<rparr>"
    using result_loweredAlone [of fw t d w] by (simp add: sharedResult_all_succeed)
next
  fix ds c rp h s x
  assume "list_all2 (routed fw) ts ds" "encodeBatchCallData fw ds = Inr c"
    "fst (getEncodedReplayProtection fw (authority w)) = Inr rp"
    "canonicalHash fw c rp (authorityAddress fw) (address fw) (chainID fw) = Inr h"
    "signMessage fw h = Inr s" "encodeBatchTx fw ds rp (authorityAddress fw) s = Inr x"
  then show "fst (signMetaTransaction fw (Batch ts) w) = Inr \<lparr>to = address fw, data = x\<rparr>"
    using result_routed(1) [of fw ts ds w] by (simp add: sharedResult_all_succeed)
qed

text \<open>
  A deploy descriptor alone, and the batch of the deploy descriptor and a direct call:
  both transactions go to the forwarder 0xF0, not to the delegate deployer 0xDD the
  deploy call was lowered to, nor to the target 0xC0 of the direct call.
\<close>

theorem minimalTx_to_is_forwarder_address_witness:
  "fst (signMetaTransaction demoForwarder (Single demoDeploy) demoWorld)
     = Inr \<lparr>to = ''0xF0'', data = ''forward({0xDD,deploy(0x60,k0x5A)},t,0xA0,0x51)''\<rparr> \<and>
   fst (signMetaTransaction demoForwarder (Batch [demoDeploy, demoCall]) demoWorld)
     = Inr \<lparr>to = ''0xF0'',
            data = ''batch([{0xDD,deploy(0x60,k0x5A)}{0xC0,0x01}],t,0xA0,0x51)''\<rparr> \<and>
   address demoForwarder = ''0xF0'' \<and>
   DELEGATE_DEPLOYER_ADDRESS demoForwarder = ''0xDD'' \<and>
   cd_to demoCall = Some ''0xC0''"
proof -
  let ?d = "\<lparr>cd_to = Some ''0xDD'', cd_data = Some ''deploy(0x60,k0x5A)'',
            cd_value = Some (BnString ''0x''), cd_salt = None, cd_extra = ()\<rparr> :: unit CallData"
  have low: "loweredAlone demoForwarder demoDeploy ?d"
    "list_all2 (routed demoForwarder) [demoDeploy, demoCall] [?d, demoCall]"
    by (simp_all add: loweredAlone_def routed_def hasSalt_def demo_defs saltOf_def valueOr0x_def)
  have single: "encodeCallData demoForwarder ?d = Inr ''{0xDD,deploy(0x60,k0x5A)}''"
    "fst (getEncodedReplayProtection demoForwarder (authority demoWorld)) = Inr ''t''"
    "canonicalHash demoForwarder ''{0xDD,deploy(0x60,k0x5A)}'' ''t''
       (authorityAddress demoForwarder) (address demoForwarder) (chainID demoForwarder)
       = Inr (map of_char ''k{0xDD,deploy(0x60,k0x5A)};t;0xA0;0xF0;1;'')"
    "signMessage demoForwarder (map of_char ''k{0xDD,deploy(0x60,k0x5A)};t;0xA0;0xF0;1;'')
       = Inr ''0x51''"
    "encodeTx demoForwarder ?d ''t'' (authorityAddress demoForwarder) ''0x51''
       = Inr ''forward({0xDD,deploy(0x60,k0x5A)},t,0xA0,0x51)''"
    by (simp_all add: demo_defs canonicalHash_def)
  have batch:
    "encodeBatchCallData demoForwarder [?d, demoCall]
       = Inr ''[{0xDD,deploy(0x60,k0x5A)}{0xC0,0x01}]''"
    "canonicalHash demoForwarder ''[{0xDD,deploy(0x60,k0x5A)}{0xC0,0x01}]'' ''t''
       (authorityAddress demoForwarder) (address demoForwarder) (chainID demoForwarder)
       = Inr (map of_char ''k[{0xDD,deploy(0x60,k0x5A)}{0xC0,0x01}];t;0xA0;0xF0;1;'')"
    "signMessage demoForwarder
       (map of_char ''k[{0xDD,deploy(0x60,k0x5A)}{0xC0,0x01}];t;0xA0;0xF0;1;'') = Inr ''0x51''"
    "encodeBatchTx demoForwarder [?d, demoCall] ''t'' (authorityAddress demoForwarder) ''0x51''
       = Inr ''batch([{0xDD,deploy(0x60,k0x5A)}{0xC0,0x01}],t,0xA0,0x51)''"
    by (simp_all add: demo_defs canonicalHash_def)
  have addr: "address demoForwarder = ''0xF0''"
    "DELEGATE_DEPLOYER_ADDRESS demoForwarder = ''0xDD''" "cd_to demoCall = Some ''0xC0''"
    by (simp_all add: demo_defs)
  note inst = minimalTx_to_is_forwarder_address
    [of demoForwarder "Single demoDeploy" demoWorld demoDeploy "[demoDeploy, demoCall]"]
  from inst low(1) single
  have 1: "fst (signMetaTransaction demoForwarder (Single demoDeploy) demoWorld)
     = Inr \<lparr>to = address demoForwarder,
            data = ''forward({0xDD,deploy(0x60,k0x5A)},t,0xA0,0x51)''\<rparr>"
    by blast
  from inst low(2) batch single(2)
  have 2: "fst (signMetaTransaction demoForwarder (Batch [demoDeploy, demoCall]) demoWorld)
     = Inr \<lparr>to = address demoForwarder,
            data = ''batch([{0xDD,deploy(0x60,k0x5A)}{0xC0,0x01}],t,0xA0,0x51)''\<rparr>"
    by blast
  from 1 2 addr show ?thesis by simp
qed




end
